theory Spec2Isabelle
  imports Main "HOL-Library.Log_Nat" "HOL-Library.Multiset"
begin

section \<open>Python values used by the generator\<close>

text \<open>
  The exceptions the modelled functions can raise. \<open>IndexError\<close> is what
  \<open>random.choice\<close> raises on an empty sequence, \<open>ValueError\<close> what \<open>random.sample\<close>
  raises when the sample size is negative or larger than the population,
  \<open>OverflowError\<close> what the conversion of a too large \<open>int\<close> to \<open>float\<close> raises.
\<close>

datatype erro = ValueError | ZeroDivisionError | OverflowError | IndexError

subsection \<open>Double-precision floats\<close>

text \<open>
  A Python \<open>float\<close> is an IEEE 754 binary64 value. A finite one is \<open>Fin m e\<close>, the
  number \<open>m * 2 ^ e\<close> (the sign of zero is not kept: comparison and \<open>math.ceil\<close> do
  not see it). Every operation computes the exact result and rounds it to the nearest
  double, ties to even: 53 significant bits, gradual underflow below
  \<open>2 ^ (-1022)\<close> (unit \<open>2 ^ (-1074)\<close>), infinity from \<open>2 ^ 1024\<close> on.
\<close>

datatype pyfloat = Fin int int | PInf | NInf | NaN

text \<open>\<open>desloca m s\<close> is \<open>m / 2 ^ s\<close> rounded to an integer, ties to even.\<close>

definition desloca :: "int \<Rightarrow> nat \<Rightarrow> int" where
  "desloca m s =
     (let f = m div 2 ^ s; r = m mod 2 ^ s; meio = 2 ^ (s - 1) in
      if s = 0 then m
      else if r < meio then f
      else if meio < r then f + 1
      else if even f then f else f + 1)"

text \<open>\<open>arredonda m e\<close> rounds the exact value \<open>m * 2 ^ e\<close> to a double.\<close>

definition arredonda :: "int \<Rightarrow> int \<Rightarrow> pyfloat" where
  "arredonda m e =
     (if m = 0 then Fin 0 0
      else
        let ex = max (bitlen \<bar>m\<bar> - 1 + e) (- 1022);
            s = ex - 52 - e;
            m' = (if 0 < s then desloca m (nat s) else m);
            e' = (if 0 < s then e + s else e)
        in if 1024 < bitlen \<bar>m'\<bar> + e' then (if 0 < m then PInf else NInf)
           else Fin m' e')"

text \<open>
  \<open>arredonda_frac a b\<close> rounds the exact quotient \<open>a / b\<close> (\<open>b \<noteq> 0\<close>) to a double:
  the quotient is first cut to an integer of at least 55 bits whose last bit records
  whether anything was cut off, which rounds as the exact quotient does.
\<close>

definition arredonda_frac :: "int \<Rightarrow> int \<Rightarrow> pyfloat" where
  "arredonda_frac a b =
     (let n = \<bar>a\<bar>; d = \<bar>b\<bar>;
          sg = (if (a < 0) = (b < 0) then 1 else - 1);
          k = max 0 (55 + bitlen d - bitlen n);
          q = (n * 2 ^ nat k) div d;
          r = (n * 2 ^ nat k) mod d
      in arredonda (sg * (2 * q + (if r = 0 then 0 else 1))) (- k - 1))"

text \<open>The float literals of the source: \<open>0.8\<close>, \<open>1.2\<close> and \<open>0.5\<close>.\<close>

definition lit_0_8 :: pyfloat where "lit_0_8 = arredonda_frac 8 10"
definition lit_1_2 :: pyfloat where "lit_1_2 = arredonda_frac 12 10"
definition lit_0_5 :: pyfloat where "lit_0_5 = arredonda_frac 5 10"

text \<open>Float multiplication \<open>x * y\<close>.\<close>

fun sinal_pos :: "pyfloat \<Rightarrow> bool" where
  "sinal_pos (Fin m e) = (0 < m)"
| "sinal_pos PInf = True"
| "sinal_pos NInf = False"
| "sinal_pos NaN = False"

fun eh_zero :: "pyfloat \<Rightarrow> bool" where
  "eh_zero (Fin m e) = (m = 0)"
| "eh_zero PInf = False"
| "eh_zero NInf = False"
| "eh_zero NaN = False"

definition fmul :: "pyfloat \<Rightarrow> pyfloat \<Rightarrow> pyfloat" where
  "fmul x y =
     (case (x, y) of
        (Fin m1 e1, Fin m2 e2) \<Rightarrow> arredonda (m1 * m2) (e1 + e2)
      | (NaN, _) \<Rightarrow> NaN
      | (_, NaN) \<Rightarrow> NaN
      | _ \<Rightarrow> if eh_zero x \<or> eh_zero y then NaN
             else if sinal_pos x = sinal_pos y then PInf else NInf)"

text \<open>Float comparison \<open>x <= y\<close>: false as soon as one side is NaN.\<close>

fun fle :: "pyfloat \<Rightarrow> pyfloat \<Rightarrow> bool" where
  "fle NaN y = False"
| "fle x NaN = False"
| "fle NInf y = True"
| "fle x PInf = True"
| "fle PInf y = False"
| "fle x NInf = False"
| "fle (Fin m1 e1) (Fin m2 e2) =
     (m1 * 2 ^ nat (e1 - min e1 e2) \<le> m2 * 2 ^ nat (e2 - min e1 e2))"

text \<open>
  \<open>int * float\<close> first converts the \<open>int\<close>, with correct rounding, and raises
  \<open>OverflowError\<close> when the integer is too large for a double.
\<close>

definition int_para_float :: "int \<Rightarrow> erro + pyfloat" where
  "int_para_float n =
     (case arredonda n 0 of
        Fin m e \<Rightarrow> Inr (Fin m e)
      | _ \<Rightarrow> Inl OverflowError)"

text \<open>
  True division \<open>a / b\<close> of two \<open>int\<close>s: the correctly rounded quotient,
  \<open>ZeroDivisionError\<close> for \<open>b = 0\<close>, \<open>OverflowError\<close> when the quotient is too large.
\<close>

definition int_truediv :: "int \<Rightarrow> int \<Rightarrow> erro + pyfloat" where
  "int_truediv a b =
     (if b = 0 then Inl ZeroDivisionError
      else case arredonda_frac a b of
        Fin m e \<Rightarrow> Inr (Fin m e)
      | _ \<Rightarrow> Inl OverflowError)"

text \<open>\<open>math.ceil\<close> of a float is an \<open>int\<close>; it raises on infinities and NaN.\<close>

fun math_ceil :: "pyfloat \<Rightarrow> erro + int" where
  "math_ceil (Fin m e) =
     Inr (if 0 \<le> e then m * 2 ^ nat e else - ((- m) div 2 ^ nat (- e)))"
| "math_ceil NaN = Inl ValueError"
| "math_ceil x = Inl OverflowError"

subsection \<open>The module \<open>random\<close>\<close>

text \<open>
  The state of Python's global generator is a sequence of raw draws, read from position
  \<open>0\<close> on; consuming a draw shifts the sequence. A raw draw \<open>r\<close> selects position
  \<open>r mod n\<close> among \<open>n\<close> candidates, so every outcome of \<open>random.choice\<close>,
  \<open>random.sample\<close> and \<open>random.shuffle\<close> is the result for some sequence, and a
  statement for all sequences covers every run of the generator.
\<close>

type_synonym rng = "nat \<Rightarrow> nat"

definition prox :: "rng \<Rightarrow> nat" where
  "prox g = g 0"

definition avanca :: "rng \<Rightarrow> rng" where
  "avanca g = (\<lambda>n. g (Suc n))"

definition random_choice :: "'a list \<Rightarrow> rng \<Rightarrow> erro + ('a \<times> rng)" where
  "random_choice xs g =
     (if xs = [] then Inl IndexError
      else Inr (xs ! (prox g mod length xs), avanca g))"

fun sorteia :: "'a list \<Rightarrow> nat \<Rightarrow> rng \<Rightarrow> 'a list \<times> rng" where
  "sorteia xs 0 g = ([], g)"
| "sorteia xs (Suc k) g =
     (let i = prox g mod length xs;
          (ys, g') = sorteia (take i xs @ drop (Suc i) xs) k (avanca g)
      in (xs ! i # ys, g'))"

definition random_sample :: "'a list \<Rightarrow> int \<Rightarrow> rng \<Rightarrow> erro + ('a list \<times> rng)" where
  "random_sample population k g =
     (if \<not> (0 \<le> k \<and> k \<le> int (length population)) then Inl ValueError
      else Inr (sorteia population (nat k) g))"

definition random_shuffle :: "'a list \<Rightarrow> rng \<Rightarrow> 'a list \<times> rng" where
  "random_shuffle xs g = sorteia xs (length xs) g"

subsection \<open>Sets of numbers\<close>

text \<open>
  A Python \<open>set\<close> of integers is kept as its ascending list without repetitions. The
  order in which CPython iterates a set is not modelled: the generator only counts the
  set, draws from it at a random position, and sorts the outcome.
\<close>

definition conjunto :: "int list \<Rightarrow> int list" where
  "conjunto xs = sort (remdups xs)"

definition conjunto_add :: "int \<Rightarrow> int list \<Rightarrow> int list" where
  "conjunto_add x s = (if x \<in> set s then s else insort x s)"

section \<open>Draw history and statistics\<close>

definition NUM_MIN :: int where "NUM_MIN = 1"
definition NUM_MAX :: int where "NUM_MAX = 60"

text \<open>
  A row of the data frame: the contest number (column \<open>CONCURSO\<close>) and the values of
  the columns \<open>BOLA1\<close> to \<open>BOLA6\<close>, in column order. The date column is not read by
  the functions below. A \<open>pd.Series\<close> is the list of its (index, value) pairs.
\<close>

record sorteio =
  concurso :: int
  bolas :: "int list"

type_synonym dataframe = "sorteio list"
type_synonym series = "(int \<times> int) list"

definition calcular_frequencia_numeros :: "dataframe \<Rightarrow> series" where
  "calcular_frequencia_numeros df =
     (let numeros = concat (map bolas df)
      in map (\<lambda>n. (n, int (count_list numeros n))) [NUM_MIN..NUM_MAX])"

fun maximo :: "int list \<Rightarrow> int option" where
  "maximo [] = None"
| "maximo (x # xs) = (case maximo xs of None \<Rightarrow> Some x | Some m \<Rightarrow> Some (max x m))"

text \<open>The two nested loops that fill the dictionary \<open>ultimo_concurso_num\<close>.\<close>

fun marca_bolas :: "int \<Rightarrow> int list \<Rightarrow> (int \<rightharpoonup> int) \<Rightarrow> (int \<rightharpoonup> int)" where
  "marca_bolas c [] m = m"
| "marca_bolas c (num # ns) m = marca_bolas c ns (m(num \<mapsto> c))"

fun marca_linhas :: "dataframe \<Rightarrow> (int \<rightharpoonup> int) \<Rightarrow> (int \<rightharpoonup> int)" where
  "marca_linhas [] m = m"
| "marca_linhas (r # rs) m = marca_linhas rs (marca_bolas (concurso r) (bolas r) m)"

text \<open>
  On an empty data frame pandas gives NaN for the maximum of \<open>CONCURSO\<close> and every
  entry of the result is NaN; the model returns \<open>None\<close> there, a series holding
  integers only. The keys \<open>1..60\<close> are in the dictionary from its initialisation on, so
  the lookup in the last loop never fails.
\<close>

definition calcular_atraso_numeros :: "dataframe \<Rightarrow> series option" where
  "calcular_atraso_numeros df =
     (case maximo (map concurso df) of
        None \<Rightarrow> None
      | Some ultimo_concurso \<Rightarrow>
          let ultimo_concurso_num =
                marca_linhas df (map_of (map (\<lambda>n. (n, - 1)) [NUM_MIN..NUM_MAX]))
          in Some (map (\<lambda>n.
                (n, if the (ultimo_concurso_num n) = - 1 then ultimo_concurso
                    else ultimo_concurso - the (ultimo_concurso_num n)))
              [NUM_MIN..NUM_MAX]))"

definition proporcao_impares_pares :: "dataframe \<Rightarrow> erro + pyfloat" where
  "proporcao_impares_pares df =
     (let total_numeros = int (length (concat (map bolas df)));
          total_impares = int (length (filter (\<lambda>x. x mod 2 \<noteq> 0) (concat (map bolas df))))
      in if total_numeros = 0 then Inr (Fin 0 0)
         else int_truediv total_impares total_numeros)"

section \<open>Validators\<close>

fun ja_saiu_no_historico :: "int list \<Rightarrow> dataframe \<Rightarrow> bool" where
  "ja_saiu_no_historico combinacao [] = False"
| "ja_saiu_no_historico combinacao (r # rs) =
     (if set combinacao = set (bolas r) then True
      else ja_saiu_no_historico combinacao rs)"

text \<open>
  The loop of \<open>tem_mais_de_3_consecutivos\<close> over the sorted list: \<open>ant\<close> is
  \<open>c_ord[i - 1]\<close>, \<open>consecutivos\<close> the running counter.
\<close>

fun consecutivos_laco :: "int \<Rightarrow> nat \<Rightarrow> int list \<Rightarrow> bool" where
  "consecutivos_laco ant consecutivos [] = False"
| "consecutivos_laco ant consecutivos (x # xs) =
     (if x = ant + 1
      then (if consecutivos + 1 > 3 then True
            else consecutivos_laco x (consecutivos + 1) xs)
      else consecutivos_laco x 1 xs)"

definition tem_mais_de_3_consecutivos :: "int list \<Rightarrow> bool" where
  "tem_mais_de_3_consecutivos combinacao =
     (case sort combinacao of
        [] \<Rightarrow> False
      | x # xs \<Rightarrow> consecutivos_laco x 1 xs)"

section \<open>Proportional selection\<close>

text \<open>The quotas \<open>(n_freq, n_atra)\<close> computed at the head of
  \<open>gerar_combinacao_proporcional\<close>.\<close>

definition cotas :: "int \<Rightarrow> string \<Rightarrow> erro + (int \<times> int)" where
  "cotas qtd_numeros foco =
     (case int_para_float qtd_numeros of
        Inl e \<Rightarrow> Inl e
      | Inr q \<Rightarrow>
          if foco = ''frequentes'' then
            (case math_ceil (fmul q lit_0_8) of
               Inl e \<Rightarrow> Inl e
             | Inr n_freq \<Rightarrow> Inr (n_freq, qtd_numeros - n_freq))
          else if foco = ''atrasados'' then
            (case math_ceil (fmul q lit_0_8) of
               Inl e \<Rightarrow> Inl e
             | Inr n_atra \<Rightarrow> Inr (qtd_numeros - n_atra, n_atra))
          else
            (case math_ceil (fmul q lit_0_5) of
               Inl e \<Rightarrow> Inl e
             | Inr n_freq \<Rightarrow> Inr (n_freq, qtd_numeros - n_freq)))"

text \<open>
  The fill loop \<open>while len(comb_set) < qtd_numeros\<close>. \<open>None\<close> stands for a loop that
  does not end.
\<close>

partial_function (option) preencher ::
  "int list \<Rightarrow> int \<Rightarrow> rng \<Rightarrow> (erro + (int list \<times> rng)) option" where
  "preencher comb_set qtd_numeros g =
     (if int (length comb_set) < qtd_numeros then
        (let resto = filter (\<lambda>n. n \<notin> set comb_set) [NUM_MIN..NUM_MAX] in
         if resto = [] then Some (Inr (comb_set, g))
         else case random_choice resto g of
                Inl e \<Rightarrow> Some (Inl e)
              | Inr (x, g') \<Rightarrow> preencher (conjunto_add x comb_set) qtd_numeros g')
      else Some (Inr (comb_set, g)))"

definition escolhe :: "int list \<Rightarrow> int \<Rightarrow> rng \<Rightarrow> erro + (int list \<times> rng)" where
  "escolhe pool n g =
     (if int (length pool) < n then Inr (pool, g) else random_sample pool n g)"

definition corta :: "int list \<Rightarrow> int \<Rightarrow> rng \<Rightarrow> erro + (int list \<times> rng)" where
  "corta comb_set qtd_numeros g =
     (if int (length comb_set) > qtd_numeros then random_sample comb_set qtd_numeros g
      else Inr (comb_set, g))"

definition gerar_combinacao_proporcional ::
  "int \<Rightarrow> string \<Rightarrow> int list \<Rightarrow> int list \<Rightarrow> rng \<Rightarrow> (erro + (int list \<times> rng)) option" where
  "gerar_combinacao_proporcional qtd_numeros foco top_freq top_atra g =
     (case cotas qtd_numeros foco of
        Inl e \<Rightarrow> Some (Inl e)
      | Inr (n_freq, n_atra) \<Rightarrow>
     (case escolhe top_freq n_freq g of
        Inl e \<Rightarrow> Some (Inl e)
      | Inr (escolhidos_freq, g1) \<Rightarrow>
     (case escolhe top_atra n_atra g1 of
        Inl e \<Rightarrow> Some (Inl e)
      | Inr (escolhidos_atra, g2) \<Rightarrow>
     (case preencher (conjunto (escolhidos_freq @ escolhidos_atra)) qtd_numeros g2 of
        None \<Rightarrow> None
      | Some (Inl e) \<Rightarrow> Some (Inl e)
      | Some (Inr (comb_set, g3)) \<Rightarrow>
     (case corta comb_set qtd_numeros g3 of
        Inl e \<Rightarrow> Some (Inl e)
      | Inr (comb_list, g4) \<Rightarrow> Some (Inr (random_shuffle comb_list g4)))))))"

section \<open>The generation loop\<close>

text \<open>
  \<open>sort_values(ascending=False)\<close> orders a series by descending value. pandas sorts
  with a quicksort that is not stable, so the order in which it leaves the entries of
  equal value depends on its implementation and is not fixed by the source. The model
  takes that order as the parameter \<open>desempate\<close>: the series is first rearranged by
  \<open>desempate\<close> and then sorted stably, so that every descending arrangement of the
  series is the result for some rearrangement. \<open>permuta desempate\<close> says that
  \<open>desempate\<close> only rearranges.
\<close>

definition sort_values_desc :: "(series \<Rightarrow> series) \<Rightarrow> series \<Rightarrow> series" where
  "sort_values_desc desempate s = sort_key (\<lambda>p. - snd p) (desempate s)"

definition permuta :: "(series \<Rightarrow> series) \<Rightarrow> bool" where
  "permuta desempate = (\<forall>s. mset (desempate s) = mset s)"

definition janela_impares :: "pyfloat \<Rightarrow> pyfloat \<Rightarrow> bool" where
  "janela_impares prop_impares prop_aposta_impares =
     (fle (fmul prop_impares lit_0_8) prop_aposta_impares
      \<and> fle prop_aposta_impares (fmul prop_impares lit_1_2))"

text \<open>The \<open>while True\<close> loop of \<open>gerar_aposta\<close>; \<open>None\<close> stands for a loop that does
  not end.\<close>

partial_function (option) gerar_aposta_laco ::
  "dataframe \<Rightarrow> int \<Rightarrow> pyfloat \<Rightarrow> string \<Rightarrow> int list \<Rightarrow> int list \<Rightarrow> rng
     \<Rightarrow> (erro + int list) option" where
  "gerar_aposta_laco df qtd_numeros prop_impares foco top_freq top_atra g =
     (case gerar_combinacao_proporcional qtd_numeros foco top_freq top_atra g of
        None \<Rightarrow> None
      | Some (Inl e) \<Rightarrow> Some (Inl e)
      | Some (Inr (comb, g')) \<Rightarrow>
          (let combinacao = sort comb;
               impares = int (length (filter (\<lambda>x. x mod 2 \<noteq> 0) combinacao))
           in case int_truediv impares qtd_numeros of
                Inl e \<Rightarrow> Some (Inl e)
              | Inr prop_aposta_impares \<Rightarrow>
                  if \<not> janela_impares prop_impares prop_aposta_impares
                  then gerar_aposta_laco df qtd_numeros prop_impares foco top_freq top_atra g'
                  else if ja_saiu_no_historico combinacao df
                  then gerar_aposta_laco df qtd_numeros prop_impares foco top_freq top_atra g'
                  else if tem_mais_de_3_consecutivos combinacao
                  then gerar_aposta_laco df qtd_numeros prop_impares foco top_freq top_atra g'
                  else Some (Inr combinacao)))"


definition gerar_aposta ::
  "(series \<Rightarrow> series) \<Rightarrow> dataframe \<Rightarrow> series \<Rightarrow> series \<Rightarrow> int \<Rightarrow> pyfloat \<Rightarrow> string \<Rightarrow> rng
     \<Rightarrow> (erro + int list) option" where
  "gerar_aposta desempate df freq atraso qtd_numeros prop_impares foco g =
     (let top_freq = take 30 (map fst (sort_values_desc desempate freq));
          top_atra = take 30 (map fst (sort_values_desc desempate atraso))
      in gerar_aposta_laco df qtd_numeros prop_impares foco top_freq top_atra g)"

section \<open>Specification-side notions and example histories\<close>

text \<open>
  A combination holds a run of four consecutive integers when some \<open>k\<close> occurs in it
  together with \<open>k + 1\<close>, \<open>k + 2\<close> and \<open>k + 3\<close>. In a list without repetitions these
  four are neighbours once the list is sorted.
\<close>

definition corrida_de_4 :: "int list \<Rightarrow> bool" where
  "corrida_de_4 c = (\<exists>k \<in> set c. k + 1 \<in> set c \<and> k + 2 \<in> set c \<and> k + 3 \<in> set c)"

text \<open>\<open>inicia a n xs\<close>: the list \<open>xs\<close> starts with \<open>a + 1, \<dots>, a + n\<close>;
  \<open>tem_corrida xs\<close>: four neighbours of \<open>xs\<close> are consecutive integers.\<close>

fun inicia :: "int \<Rightarrow> nat \<Rightarrow> int list \<Rightarrow> bool" where
  "inicia a 0 xs = True"
| "inicia a (Suc n) [] = False"
| "inicia a (Suc n) (x # xs) = (x = a + 1 \<and> inicia x n xs)"

fun tem_corrida :: "int list \<Rightarrow> bool" where
  "tem_corrida [] = False"
| "tem_corrida (a # xs) = (inicia a 3 xs \<or> tem_corrida xs)"

text \<open>The number of odd members of a combination, as \<open>gerar_aposta\<close> counts it.\<close>

definition impares :: "int list \<Rightarrow> int" where
  "impares c = int (length (filter (\<lambda>x. x mod 2 \<noteq> 0) c))"

text \<open>Three draws, and a history of five draws that holds every odd number once.\<close>

definition historico_exemplo :: dataframe where
  "historico_exemplo =
     [\<lparr>concurso = 1, bolas = [4, 5, 30, 33, 41, 52]\<rparr>,
      \<lparr>concurso = 2, bolas = [9, 37, 39, 41, 43, 49]\<rparr>,
      \<lparr>concurso = 3, bolas = [10, 11, 29, 30, 36, 47]\<rparr>]"

definition historico_impares :: dataframe where
  "historico_impares =
     [\<lparr>concurso = 1, bolas = [1, 3, 5, 7, 9, 11]\<rparr>,
      \<lparr>concurso = 2, bolas = [13, 15, 17, 19, 21, 23]\<rparr>,
      \<lparr>concurso = 3, bolas = [25, 27, 29, 31, 33, 35]\<rparr>,
      \<lparr>concurso = 4, bolas = [37, 39, 41, 43, 45, 47]\<rparr>,
      \<lparr>concurso = 5, bolas = [49, 51, 53, 55, 57, 59]\<rparr>]"

text \<open>A history of one draw with even numbers only: its odd ratio is 0.\<close>

definition historico_pares :: dataframe where
  "historico_pares = [\<lparr>concurso = 1, bolas = [2, 4, 6, 8, 10, 12]\<rparr>]"

section \<open>Equations for evaluation\<close>

text \<open>
  The loops unfold one iteration at a time; these forms of their equations decide each
  test before the next step is taken.
\<close>

lemma preencher_code [code]:
  "preencher comb_set qtd_numeros g =
     (if int (length comb_set) < qtd_numeros then
        (let resto = filter (\<lambda>n. n \<notin> set comb_set) [NUM_MIN..NUM_MAX] in
         if resto = [] then Some (Inr (comb_set, g))
         else preencher (conjunto_add (resto ! (prox g mod length resto)) comb_set)
                qtd_numeros (avanca g))
      else Some (Inr (comb_set, g)))"
  by (subst preencher.simps) (simp add: random_choice_def Let_def)

lemma gerar_combinacao_proporcional_code [code]:
  "gerar_combinacao_proporcional qtd_numeros foco top_freq top_atra g =
     (let c = cotas qtd_numeros foco in
      if isl c then Some (Inl (projl c)) else
      let r1 = escolhe top_freq (fst (projr c)) g in
      if isl r1 then Some (Inl (projl r1)) else
      let r2 = escolhe top_atra (snd (projr c)) (snd (projr r1)) in
      if isl r2 then Some (Inl (projl r2)) else
      let r3 = preencher (conjunto (fst (projr r1) @ fst (projr r2))) qtd_numeros
                 (snd (projr r2)) in
      if Option.is_none r3 then None else
      if isl (the r3) then Some (Inl (projl (the r3))) else
      let r4 = corta (fst (projr (the r3))) qtd_numeros (snd (projr (the r3))) in
      if isl r4 then Some (Inl (projl r4))
      else Some (Inr (random_shuffle (fst (projr r4)) (snd (projr r4)))))"
  by (auto simp: gerar_combinacao_proporcional_def Let_def Option.is_none_def
           split: option.splits sum.splits prod.splits)

lemma gerar_aposta_laco_code [code]:
  "gerar_aposta_laco df qtd_numeros prop_impares foco top_freq top_atra g =
     (let r = gerar_combinacao_proporcional qtd_numeros foco top_freq top_atra g in
      if Option.is_none r then None
      else if isl (the r) then Some (Inl (projl (the r)))
      else
        (let d = int_truediv
                   (int (length (filter (\<lambda>x. x mod 2 \<noteq> 0) (sort (fst (projr (the r)))))))
                   qtd_numeros
         in if isl d then Some (Inl (projl d))
            else if \<not> janela_impares prop_impares (projr d)
              \<or> ja_saiu_no_historico (sort (fst (projr (the r)))) df
              \<or> tem_mais_de_3_consecutivos (sort (fst (projr (the r))))
            then gerar_aposta_laco df qtd_numeros prop_impares foco top_freq top_atra
                   (snd (projr (the r)))
            else Some (Inr (sort (fst (projr (the r)))))))"
  by (subst gerar_aposta_laco.simps)
     (auto simp: Let_def Option.is_none_def split: option.splits sum.splits prod.splits)

section \<open>Sets, sampling and the fill loop\<close>

lemma set_conjunto_add: "set (conjunto_add x s) = insert x (set s)"
  by (auto simp: conjunto_add_def set_insort_key)

lemma distinct_conjunto_add: "distinct s \<Longrightarrow> distinct (conjunto_add x s)"
  by (simp add: conjunto_add_def distinct_insort)

lemma length_conjunto_add:
  "x \<notin> set s \<Longrightarrow> length (conjunto_add x s) = Suc (length s)"
  by (simp add: conjunto_add_def)

lemma set_conjunto: "set (conjunto xs) = set xs"
  by (simp add: conjunto_def)

lemma distinct_conjunto: "distinct (conjunto xs)"
  by (simp add: conjunto_def)

lemma length_conjunto: "length (conjunto xs) \<le> length xs"
  by (simp add: conjunto_def)

lemma escolha_no_resto:
  assumes "filter (\<lambda>n. n \<notin> set comb) L \<noteq> []"
  shows "filter (\<lambda>n. n \<notin> set comb) L ! (r mod length (filter (\<lambda>n. n \<notin> set comb) L))
           \<in> set L - set comb"
proof -
  let ?resto = "filter (\<lambda>n. n \<notin> set comb) L"
  have "r mod length ?resto < length ?resto" using assms by simp
  then have "?resto ! (r mod length ?resto) \<in> set ?resto" by (rule nth_mem)
  then show ?thesis by simp
qed

lemma resto_diminui:
  assumes "x \<in> set L" "x \<notin> set comb"
  shows "length (filter (\<lambda>n. n \<notin> set (conjunto_add x comb)) L)
           < length (filter (\<lambda>n. n \<notin> set comb) L)"
proof -
  have eq: "filter (\<lambda>n. n \<notin> set (conjunto_add x comb)) L
              = filter (\<lambda>n. n \<noteq> x) (filter (\<lambda>n. n \<notin> set comb) L)"
    by (auto simp: set_conjunto_add intro: filter_cong)
  have "x \<in> set (filter (\<lambda>n. n \<notin> set comb) L)" using assms by simp
  then have "length (filter (\<lambda>n. n \<noteq> x) (filter (\<lambda>n. n \<notin> set comb) L))
               < length (filter (\<lambda>n. n \<notin> set comb) L)"
    by (rule length_filter_less) simp
  then show ?thesis by (simp only: eq)
qed

lemma preencher_passo:
  assumes "int (length comb) < qtd"
    and "filter (\<lambda>n. n \<notin> set comb) [NUM_MIN..NUM_MAX] \<noteq> []"
  shows "preencher comb qtd g =
           preencher (conjunto_add
               (filter (\<lambda>n. n \<notin> set comb) [NUM_MIN..NUM_MAX]
                  ! (prox g mod length (filter (\<lambda>n. n \<notin> set comb) [NUM_MIN..NUM_MAX])))
               comb) qtd (avanca g)"
  using assms by (subst preencher.simps) (simp add: random_choice_def Let_def)

lemma preencher_para:
  assumes "\<not> int (length comb) < qtd
           \<or> filter (\<lambda>n. n \<notin> set comb) [NUM_MIN..NUM_MAX] = []"
  shows "preencher comb qtd g = Some (Inr (comb, g))"
  using assms by (subst preencher.simps) (auto simp: Let_def)

lemma preencher_total:
  "\<exists>comb' g'. preencher comb qtd g = Some (Inr (comb', g'))
      \<and> set comb \<subseteq> set comb'
      \<and> set comb' \<subseteq> set comb \<union> {NUM_MIN..NUM_MAX}
      \<and> (distinct comb \<longrightarrow> distinct comb')
      \<and> (distinct comb \<longrightarrow> int (length comb) \<le> qtd \<longrightarrow>
            int (length comb') = qtd \<or> {NUM_MIN..NUM_MAX} \<subseteq> set comb')
      \<and> (qtd \<le> int (length comb) \<longrightarrow> comb' = comb)"
proof (induction "length (filter (\<lambda>n. n \<notin> set comb) [NUM_MIN..NUM_MAX])"
        arbitrary: comb g rule: less_induct)
  case less
  let ?resto = "filter (\<lambda>n. n \<notin> set comb) [NUM_MIN..NUM_MAX]"
  show ?case
  proof (cases "int (length comb) < qtd \<and> ?resto \<noteq> []")
    case False
    then have p: "preencher comb qtd g = Some (Inr (comb, g))"
      by (intro preencher_para) auto
    have "?resto = [] \<Longrightarrow> {NUM_MIN..NUM_MAX} \<subseteq> set comb"
      by (auto simp: filter_empty_conv)
    with False p show ?thesis by auto
  next
    case True
    define x where "x = ?resto ! (prox g mod length ?resto)"
    from True have xin: "x \<in> set [NUM_MIN..NUM_MAX] - set comb"
      unfolding x_def by (intro escolha_no_resto) simp
    then have menor: "length (filter (\<lambda>n. n \<notin> set (conjunto_add x comb)) [NUM_MIN..NUM_MAX])
                        < length ?resto"
      by (intro resto_diminui) auto
    from less[OF menor, of "avanca g"] obtain comb' g' where
      r: "preencher (conjunto_add x comb) qtd (avanca g) = Some (Inr (comb', g'))"
      and s1: "set (conjunto_add x comb) \<subseteq> set comb'"
      and s2: "set comb' \<subseteq> set (conjunto_add x comb) \<union> {NUM_MIN..NUM_MAX}"
      and d: "distinct (conjunto_add x comb) \<longrightarrow> distinct comb'"
      and l: "distinct (conjunto_add x comb) \<longrightarrow> int (length (conjunto_add x comb)) \<le> qtd \<longrightarrow>
                int (length comb') = qtd \<or> {NUM_MIN..NUM_MAX} \<subseteq> set comb'"
      by blast
    have p: "preencher comb qtd g = Some (Inr (comb', g'))"
      using True r unfolding x_def by (subst preencher_passo) auto
    have len: "length (conjunto_add x comb) = Suc (length comb)"
      using xin by (intro length_conjunto_add) simp
    from s1 have a: "set comb \<subseteq> set comb'" by (auto simp: set_conjunto_add)
    from s2 xin have b: "set comb' \<subseteq> set comb \<union> {NUM_MIN..NUM_MAX}"
      by (auto simp: set_conjunto_add)
    from d have c: "distinct comb \<longrightarrow> distinct comb'"
      by (simp add: distinct_conjunto_add)
    from l True have e: "distinct comb \<longrightarrow> int (length comb) \<le> qtd \<longrightarrow>
                int (length comb') = qtd \<or> {NUM_MIN..NUM_MAX} \<subseteq> set comb'"
      by (simp add: distinct_conjunto_add len)
    from True have f: "qtd \<le> int (length comb) \<longrightarrow> comb' = comb" by simp
    from p a b c e f show ?thesis by blast
  qed
qed

lemma sorteia_props:
  "k \<le> length xs \<Longrightarrow>
     length (fst (sorteia xs k g)) = k
     \<and> mset (fst (sorteia xs k g)) \<subseteq># mset xs"
proof (induction k arbitrary: xs g)
  case 0
  then show ?case by simp
next
  case (Suc k)
  let ?i = "prox g mod length xs"
  let ?rest = "take ?i xs @ drop (Suc ?i) xs"
  from Suc.prems have pos: "0 < length xs" by auto
  then have i: "?i < length xs" by simp
  then have lr: "length ?rest = length xs - 1" by simp
  with Suc.prems have "k \<le> length ?rest" by simp
  from Suc.IH[OF this, of "avanca g"]
  have ih: "length (fst (sorteia ?rest k (avanca g))) = k"
       "mset (fst (sorteia ?rest k (avanca g))) \<subseteq># mset ?rest" by auto
  have xs: "xs = take ?i xs @ xs ! ?i # drop (Suc ?i) xs"
    using i by (rule id_take_nth_drop)
  have mx: "mset xs = add_mset (xs ! ?i) (mset ?rest)"
    by (subst xs) simp
  obtain ys g' where r: "sorteia ?rest k (avanca g) = (ys, g')"
    by (cases "sorteia ?rest k (avanca g)") auto
  with ih have ys: "length ys = k" "mset ys \<subseteq># mset ?rest" by auto
  have "fst (sorteia xs (Suc k) g) = xs ! ?i # ys"
    using r by (simp add: Let_def)
  with ys mx show ?case by simp
qed

lemma sorteia_eq:
  assumes "sorteia xs k g = (ys, g')" and "k \<le> length xs"
  shows "length ys = k" and "set ys \<subseteq> set xs" and "distinct xs \<Longrightarrow> distinct ys"
proof -
  from sorteia_props[OF assms(2), of g] assms(1)
  have l: "length ys = k" and m: "mset ys \<subseteq># mset xs" by auto
  show "length ys = k" by (rule l)
  from set_mset_mono[OF m] show "set ys \<subseteq> set xs" by simp
  assume d: "distinct xs"
  from m obtain C where "mset xs = mset ys + C"
    by (auto simp: mset_subset_eq_exists_conv)
  moreover obtain zs where "C = mset zs" using ex_mset[of C] by auto
  ultimately have "mset xs = mset (ys @ zs)" by simp
  from mset_eq_imp_distinct_iff[OF this] d show "distinct ys" by simp
qed

lemma mset_random_shuffle: "mset (fst (random_shuffle xs g)) = mset xs"
proof -
  have l: "length (fst (sorteia xs (length xs) g)) = length xs"
    and "mset (fst (sorteia xs (length xs) g)) \<subseteq># mset xs"
    using sorteia_props[of "length xs" xs g] by auto
  then obtain C where c: "mset xs = mset (fst (sorteia xs (length xs) g)) + C"
    by (auto simp: mset_subset_eq_exists_conv)
  then have "size (mset xs) = size (mset (fst (sorteia xs (length xs) g))) + size C"
    by (metis size_union)
  with l have "C = {#}" by simp
  with c show ?thesis by (simp add: random_shuffle_def)
qed

lemma escolhe_props:
  assumes "escolhe pool n g = Inr (xs, g')"
  shows "set xs \<subseteq> set pool" and "int (length xs) \<le> n"
    and "distinct pool \<Longrightarrow> distinct xs"
    and "n \<le> int (length pool) \<Longrightarrow> int (length xs) = n"
proof -
  consider (todos) "int (length pool) < n" "xs = pool"
    | (amostra) "0 \<le> n" "nat n \<le> length pool" "sorteia pool (nat n) g = (xs, g')"
    using assms by (auto simp: escolhe_def random_sample_def split: if_splits)
  then have "set xs \<subseteq> set pool \<and> int (length xs) \<le> n
      \<and> (distinct pool \<longrightarrow> distinct xs)
      \<and> (n \<le> int (length pool) \<longrightarrow> int (length xs) = n)"
  proof cases
    case todos
    then show ?thesis by auto
  next
    case amostra
    from sorteia_eq[OF amostra(3) amostra(2)] amostra(1) show ?thesis by auto
  qed
  then show "set xs \<subseteq> set pool" and "int (length xs) \<le> n"
    and "distinct pool \<Longrightarrow> distinct xs"
    and "n \<le> int (length pool) \<Longrightarrow> int (length xs) = n" by auto
qed

lemma escolhe_erro:
  "escolhe pool n g = Inl e \<Longrightarrow> e = ValueError \<and> n < 0"
  by (auto simp: escolhe_def random_sample_def split: if_splits)

lemma escolhe_negativo: "n < 0 \<Longrightarrow> escolhe pool n g = Inl ValueError"
  by (simp add: escolhe_def random_sample_def)

lemma corta_props:
  assumes "corta comb qtd g = Inr (xs, g')"
  shows "int (length comb) \<le> qtd \<Longrightarrow> xs = comb"
    and "set xs \<subseteq> set comb" and "distinct comb \<Longrightarrow> distinct xs"
    and "qtd < int (length comb) \<Longrightarrow> int (length xs) = qtd"
proof -
  consider (igual) "int (length comb) \<le> qtd" "xs = comb"
    | (amostra) "qtd < int (length comb)" "0 \<le> qtd" "nat qtd \<le> length comb"
        "sorteia comb (nat qtd) g = (xs, g')"
    using assms by (auto simp: corta_def random_sample_def split: if_splits)
  then have "(int (length comb) \<le> qtd \<longrightarrow> xs = comb) \<and> set xs \<subseteq> set comb
      \<and> (distinct comb \<longrightarrow> distinct xs)
      \<and> (qtd < int (length comb) \<longrightarrow> int (length xs) = qtd)"
  proof cases
    case igual
    then show ?thesis by auto
  next
    case amostra
    from sorteia_eq[OF amostra(4) amostra(3)] amostra(1,2) show ?thesis by auto
  qed
  then show "int (length comb) \<le> qtd \<Longrightarrow> xs = comb"
    and "set xs \<subseteq> set comb" and "distinct comb \<Longrightarrow> distinct xs"
    and "qtd < int (length comb) \<Longrightarrow> int (length xs) = qtd" by auto
qed

lemma corta_erro: "corta comb qtd g = Inl e \<Longrightarrow> e = ValueError \<and> qtd < 0"
  by (auto simp: corta_def random_sample_def split: if_splits)

lemma cotas_soma: "cotas qtd foco = Inr (n_freq, n_atra) \<Longrightarrow> n_freq + n_atra = qtd"
  by (auto simp: cotas_def split: sum.splits if_splits)

section \<open>Proportional selection: termination and result\<close>

lemma gcp_decompoe:
  assumes "gerar_combinacao_proporcional qtd foco tf ta g = Some (Inr (c, g'))"
  obtains n_freq n_atra ef g1 ea g2 comb g3 cl g4 where
    "cotas qtd foco = Inr (n_freq, n_atra)"
    "escolhe tf n_freq g = Inr (ef, g1)"
    "escolhe ta n_atra g1 = Inr (ea, g2)"
    "preencher (conjunto (ef @ ea)) qtd g2 = Some (Inr (comb, g3))"
    "corta comb qtd g3 = Inr (cl, g4)"
    "random_shuffle cl g4 = (c, g')"
  using assms
  by (auto simp: gerar_combinacao_proporcional_def
      split: sum.splits prod.splits option.splits)

lemma preencher_nao_None: "preencher c qtd g \<noteq> None"
  using preencher_total[of c qtd g] by auto

lemma gcp_termina:
  "\<exists>r. gerar_combinacao_proporcional qtd foco tf ta g = Some r"
  unfolding gerar_combinacao_proporcional_def
  by (auto simp: preencher_nao_None split: sum.splits prod.splits option.splits)

lemma gcp_resultado:
  assumes "gerar_combinacao_proporcional qtd foco tf ta g = Some (Inr (c, g'))"
  shows "distinct c"
    and "set c \<subseteq> set tf \<union> set ta \<union> {NUM_MIN..NUM_MAX}"
    and "int (length c) \<le> qtd"
    and "qtd \<le> 60 \<Longrightarrow> int (length c) = qtd"
proof -
  from assms obtain n_freq n_atra ef g1 ea g2 comb g3 cl g4 where
    co: "cotas qtd foco = Inr (n_freq, n_atra)"
    and e1: "escolhe tf n_freq g = Inr (ef, g1)"
    and e2: "escolhe ta n_atra g1 = Inr (ea, g2)"
    and pr: "preencher (conjunto (ef @ ea)) qtd g2 = Some (Inr (comb, g3))"
    and ct: "corta comb qtd g3 = Inr (cl, g4)"
    and sh: "random_shuffle cl g4 = (c, g')"
    by (rule gcp_decompoe)
  let ?c0 = "conjunto (ef @ ea)"
  have soma: "n_freq + n_atra = qtd" using co by (rule cotas_soma)
  have "length ?c0 \<le> length ef + length ea"
    using length_conjunto[of "ef @ ea"] by simp
  with escolhe_props(2)[OF e1] escolhe_props(2)[OF e2] soma
  have l0: "int (length ?c0) \<le> qtd" by linarith
  have s0: "set ?c0 \<subseteq> set tf \<union> set ta"
    using escolhe_props(1)[OF e1] escolhe_props(1)[OF e2] by (auto simp: set_conjunto)
  from preencher_total[of ?c0 qtd g2] pr
  have sc: "set comb \<subseteq> set ?c0 \<union> {NUM_MIN..NUM_MAX}"
    and dc: "distinct comb"
    and lc: "int (length comb) = qtd \<or> {NUM_MIN..NUM_MAX} \<subseteq> set comb"
    using l0 by (auto simp: distinct_conjunto)
  have mc: "mset c = mset cl" using mset_random_shuffle[of cl g4] sh by simp
  then have setc: "set c = set cl" by (rule mset_eq_setD)
  have lenc: "length c = length cl" using mc by (rule mset_eq_length)
  have dcl: "distinct cl" using corta_props(3)[OF ct dc] .
  show "distinct c" using mset_eq_imp_distinct_iff[OF mc] dcl by simp
  show "set c \<subseteq> set tf \<union> set ta \<union> {NUM_MIN..NUM_MAX}"
    using setc corta_props(2)[OF ct] sc s0 by blast
  have lcl: "int (length cl) \<le> qtd \<and> (int (length comb) = qtd \<longrightarrow> cl = comb)
             \<and> (qtd < int (length comb) \<longrightarrow> int (length cl) = qtd)"
    using corta_props(1)[OF ct] corta_props(4)[OF ct] by (cases "int (length comb) \<le> qtd") auto
  then show "int (length c) \<le> qtd" using lenc by simp
  assume q60: "qtd \<le> 60"
  show "int (length c) = qtd"
  proof (cases "int (length comb) = qtd")
    case True
    with lcl lenc show ?thesis by simp
  next
    case False
    with lc have "{NUM_MIN..NUM_MAX} \<subseteq> set comb" by simp
    then have "card {NUM_MIN..NUM_MAX} \<le> card (set comb)"
      by (intro card_mono) auto
    then have "60 \<le> length comb"
      using dc by (simp add: distinct_card NUM_MIN_def NUM_MAX_def)
    with q60 False have "qtd < int (length comb)" by linarith
    with lcl lenc show ?thesis by simp
  qed
qed

text \<open>
  C10. \<open>gerar_combinacao_proporcional\<close> terminates for every count, every focus
  string, every pair of pools and every sequence of random draws, with a combination or
  with an exception: the fill loop is the only loop, and each of its iterations either
  stops or adds to the chosen set a number of \<open>1..60\<close> that was not in it
  (\<open>preencher_passo\<close>, \<open>escolha_no_resto\<close>), so that the list of remaining candidates
  gets strictly shorter (\<open>resto_diminui\<close>).
\<close>

theorem gerar_combinacao_proporcional_termina:
  "\<exists>r. gerar_combinacao_proporcional qtd_numeros foco top_freq top_atra g = Some r"
  by (rule gcp_termina)

section \<open>Quotas\<close>

lemma cotas_tabela:
  "list_all (\<lambda>n.
       cotas n ''frequentes''
         = Inr (\<lceil>(8 / 10 :: rat) * of_int n\<rceil>, n - \<lceil>(8 / 10 :: rat) * of_int n\<rceil>)
     \<and> cotas n ''atrasados''
         = Inr (n - \<lceil>(8 / 10 :: rat) * of_int n\<rceil>, \<lceil>(8 / 10 :: rat) * of_int n\<rceil>)
     \<and> cotas n ''equilibrado''
         = Inr (\<lceil>(5 / 10 :: rat) * of_int n\<rceil>, n - \<lceil>(5 / 10 :: rat) * of_int n\<rceil>))
     [6..15]"
  by code_simp

text \<open>
  C6. For every count from 6 to 15 the quotas \<open>(n_freq, n_atra)\<close> that
  \<open>gerar_combinacao_proporcional\<close> computes, in double precision, are the exact ones:
  \<open>\<lceil>0.8 n\<rceil>\<close> and the rest for the favoured pool of \<open>frequentes\<close> and
  \<open>atrasados\<close>, \<open>\<lceil>0.5 n\<rceil>\<close> frequent numbers and the rest for \<open>equilibrado\<close>.
\<close>

theorem cotas_corretas:
  assumes "6 \<le> n" and "n \<le> 15"
  shows "cotas n ''frequentes''
           = Inr (\<lceil>(8 / 10 :: rat) * of_int n\<rceil>, n - \<lceil>(8 / 10 :: rat) * of_int n\<rceil>)
       \<and> cotas n ''atrasados''
           = Inr (n - \<lceil>(8 / 10 :: rat) * of_int n\<rceil>, \<lceil>(8 / 10 :: rat) * of_int n\<rceil>)
       \<and> cotas n ''equilibrado''
           = Inr (\<lceil>(5 / 10 :: rat) * of_int n\<rceil>, n - \<lceil>(5 / 10 :: rat) * of_int n\<rceil>)"
proof -
  from assms have "n \<in> set [6..15]" by (simp only: set_upto atLeastAtMost_iff)
  with cotas_tabela show ?thesis
    unfolding list_all_iff by blast
qed

theorem cotas_corretas_witness:
  "cotas 11 ''frequentes'' = Inr (9, 2) \<and> cotas 10 ''equilibrado'' = Inr (5, 5)"
proof -
  have c: "\<lceil>44 / 5 :: rat\<rceil> = 9" by (rule ceiling_unique) simp_all
  show ?thesis
    using cotas_corretas[of 11] cotas_corretas[of 10] by (simp add: c)
qed

section \<open>The generation loop: what a returned combination satisfies\<close>

lemma gerar_aposta_laco_retorna_aux:
  assumes "gerar_aposta_laco df qtd p foco tf ta g = Some y"
  shows "\<forall>c. y = Inr c \<longrightarrow>
     (\<exists>g1 comb g2 pa.
        gerar_combinacao_proporcional qtd foco tf ta g1 = Some (Inr (comb, g2))
        \<and> c = sort comb
        \<and> int_truediv (impares c) qtd = Inr pa
        \<and> janela_impares p pa
        \<and> \<not> ja_saiu_no_historico c df
        \<and> \<not> tem_mais_de_3_consecutivos c)"
proof -
  let ?P = "\<lambda>(df :: dataframe) qtd p foco tf ta (g :: rng) (y :: erro + int list).
     \<forall>c. y = Inr c \<longrightarrow>
     (\<exists>g1 comb g2 pa.
        gerar_combinacao_proporcional qtd foco tf ta g1 = Some (Inr (comb, g2))
        \<and> c = sort comb
        \<and> int_truediv (impares c) qtd = Inr pa
        \<and> janela_impares p pa
        \<and> \<not> ja_saiu_no_historico c df
        \<and> \<not> tem_mais_de_3_consecutivos c)"
  show ?thesis
  proof (rule gerar_aposta_laco.raw_induct[where P = ?P, OF _ assms])
    fix laco :: "dataframe \<Rightarrow> int \<Rightarrow> pyfloat \<Rightarrow> string \<Rightarrow> int list \<Rightarrow> int list \<Rightarrow> rng
                   \<Rightarrow> (erro + int list) option"
    fix df qtd p foco tf ta g y
    assume IH: "\<And>df qtd p foco tf ta g y.
                  laco df qtd p foco tf ta g = Some y \<Longrightarrow> ?P df qtd p foco tf ta g y"
    assume corpo: "(case gerar_combinacao_proporcional qtd foco tf ta g of
        None \<Rightarrow> None
      | Some (Inl e) \<Rightarrow> Some (Inl e)
      | Some (Inr (comb, g')) \<Rightarrow>
          (let combinacao = sort comb;
               impares = int (length (filter (\<lambda>x. x mod 2 \<noteq> 0) combinacao))
           in case int_truediv impares qtd of
                Inl e \<Rightarrow> Some (Inl e)
              | Inr prop_aposta_impares \<Rightarrow>
                  if \<not> janela_impares p prop_aposta_impares
                  then laco df qtd p foco tf ta g'
                  else if ja_saiu_no_historico combinacao df
                  then laco df qtd p foco tf ta g'
                  else if tem_mais_de_3_consecutivos combinacao
                  then laco df qtd p foco tf ta g'
                  else Some (Inr combinacao))) = Some y"
    show "?P df qtd p foco tf ta g y"
    proof (intro allI impI)
      fix c assume y: "y = Inr c"
      from corpo obtain comb g' where
        gc: "gerar_combinacao_proporcional qtd foco tf ta g = Some (Inr (comb, g'))"
        by (auto simp: y split: option.splits sum.splits)
      from corpo gc obtain pa where
        td: "int_truediv (impares (sort comb)) qtd = Inr pa"
        by (auto simp: y Let_def impares_def split: sum.splits)
      let ?rejeita = "\<not> janela_impares p pa \<or> ja_saiu_no_historico (sort comb) df
                      \<or> tem_mais_de_3_consecutivos (sort comb)"
      show "\<exists>g1 comb g2 pa.
        gerar_combinacao_proporcional qtd foco tf ta g1 = Some (Inr (comb, g2))
        \<and> c = sort comb
        \<and> int_truediv (impares c) qtd = Inr pa
        \<and> janela_impares p pa
        \<and> \<not> ja_saiu_no_historico c df
        \<and> \<not> tem_mais_de_3_consecutivos c"
      proof (cases ?rejeita)
        case True
        with corpo gc td have "laco df qtd p foco tf ta g' = Some y"
          by (auto simp: Let_def impares_def split: if_splits)
        from IH[OF this] y show ?thesis by blast
      next
        case False
        with corpo gc td have "c = sort comb"
          by (auto simp: y Let_def impares_def split: if_splits)
        with False gc td show ?thesis by blast
      qed
    qed
  qed
qed

lemma gerar_aposta_laco_retorna:
  assumes "gerar_aposta_laco df qtd p foco tf ta g = Some (Inr c)"
  obtains g1 comb g2 pa where
    "gerar_combinacao_proporcional qtd foco tf ta g1 = Some (Inr (comb, g2))"
    "c = sort comb"
    "int_truediv (impares c) qtd = Inr pa"
    "janela_impares p pa"
    "\<not> ja_saiu_no_historico c df"
    "\<not> tem_mais_de_3_consecutivos c"
  using gerar_aposta_laco_retorna_aux[OF assms] by blast

section \<open>Consecutive runs and the history check\<close>

lemma inicia_mono: "inicia a (Suc n) xs \<Longrightarrow> inicia a n xs"
  by (induction a n xs rule: inicia.induct) auto

lemma laco_corrida:
  "consecutivos_laco a 3 xs = (inicia a 1 xs \<or> tem_corrida (a # xs))
   \<and> consecutivos_laco a 2 xs = (inicia a 2 xs \<or> tem_corrida (a # xs))
   \<and> consecutivos_laco a 1 xs = tem_corrida (a # xs)"
proof (induction xs arbitrary: a)
  case Nil
  show ?case by (simp add: eval_nat_numeral)
next
  case (Cons x xs)
  have m32: "inicia x 3 xs \<Longrightarrow> inicia x 2 xs"
    and m21: "inicia x 2 xs \<Longrightarrow> inicia x 1 xs"
    using inicia_mono[of x 2 xs] inicia_mono[of x 1 xs] by (simp_all add: eval_nat_numeral)
  have i3: "inicia a 3 (x # xs) = (x = a + 1 \<and> inicia x 2 xs)"
    and i2: "inicia a 2 (x # xs) = (x = a + 1 \<and> inicia x 1 xs)"
    and i1: "inicia a 1 (x # xs) = (x = a + 1)"
    by (simp_all add: eval_nat_numeral)
  have l3: "consecutivos_laco a 3 (x # xs) = (if x = a + 1 then True else consecutivos_laco x 1 xs)"
    and l2: "consecutivos_laco a 2 (x # xs)
               = (if x = a + 1 then consecutivos_laco x 3 xs else consecutivos_laco x 1 xs)"
    and l1: "consecutivos_laco a 1 (x # xs)
               = (if x = a + 1 then consecutivos_laco x 2 xs else consecutivos_laco x 1 xs)"
    by (simp_all add: eval_nat_numeral)
  have t: "tem_corrida (a # x # xs) = (inicia a 3 (x # xs) \<or> inicia x 3 xs \<or> tem_corrida xs)"
    by simp
  from Cons.IH[of x] have ih3: "consecutivos_laco x 3 xs = (inicia x 1 xs \<or> tem_corrida (x # xs))"
    and ih2: "consecutivos_laco x 2 xs = (inicia x 2 xs \<or> tem_corrida (x # xs))"
    and ih1: "consecutivos_laco x 1 xs = tem_corrida (x # xs)" by auto
  have tx: "tem_corrida (x # xs) = (inicia x 3 xs \<or> tem_corrida xs)" by simp
  show ?case
    unfolding l3 l2 l1 t i3 i2 i1 ih3 ih2 ih1 tx
    using m32 m21 by auto
qed

lemma tem_mais_de_3_consecutivos_corrida:
  "tem_mais_de_3_consecutivos c = tem_corrida (sort c)"
proof (cases "sort c")
  case Nil
  then show ?thesis by (simp add: tem_mais_de_3_consecutivos_def)
next
  case (Cons x xs)
  with laco_corrida[of x xs] show ?thesis
    by (simp add: tem_mais_de_3_consecutivos_def)
qed

lemma inicia_set:
  "inicia a n xs \<Longrightarrow> 1 \<le> j \<Longrightarrow> j \<le> int n \<Longrightarrow> a + j \<in> set xs"
proof (induction a n xs arbitrary: j rule: inicia.induct)
  case (3 a n x xs)
  show ?case
  proof (cases "j = 1")
    case True
    with "3.prems" show ?thesis by simp
  next
    case False
    with "3.prems" have "x + (j - 1) \<in> set xs"
      by (intro "3.IH") auto
    with "3.prems" show ?thesis by simp
  qed
qed auto

lemma tem_corrida_conjunto:
  "tem_corrida xs \<Longrightarrow> \<exists>k\<in>set xs. k + 1 \<in> set xs \<and> k + 2 \<in> set xs \<and> k + 3 \<in> set xs"
proof (induction xs)
  case (Cons a xs)
  show ?case
  proof (cases "inicia a 3 xs")
    case True
    from inicia_set[OF True, of 1] inicia_set[OF True, of 2] inicia_set[OF True, of 3]
    show ?thesis by auto
  next
    case False
    with Cons show ?thesis by auto
  qed
qed simp

lemma ordenada_inicia:
  "sorted_wrt (<) (a # xs) \<Longrightarrow> (\<forall>j. 1 \<le> j \<and> j \<le> int n \<longrightarrow> a + j \<in> set xs)
     \<Longrightarrow> inicia a n xs"
proof (induction n arbitrary: a xs)
  case 0
  show ?case by simp
next
  case (Suc n)
  from Suc.prems(2) have a1: "a + 1 \<in> set xs" by auto
  then obtain x xs' where xs: "xs = x # xs'" by (cases xs) auto
  from Suc.prems(1) xs have ax: "a < x" and gt: "\<forall>y\<in>set xs'. x < y"
    and so: "sorted_wrt (<) (x # xs')" by auto
  have x: "x = a + 1"
  proof (rule ccontr)
    assume "x \<noteq> a + 1"
    with a1 xs have "a + 1 \<in> set xs'" by auto
    with gt have "x < a + 1" by auto
    with ax show False by simp
  qed
  have "\<forall>j. 1 \<le> j \<and> j \<le> int n \<longrightarrow> x + j \<in> set xs'"
  proof (intro allI impI)
    fix j assume j: "1 \<le> j \<and> j \<le> int n"
    with Suc.prems(2) have "a + (j + 1) \<in> set xs" by auto
    with x xs j show "x + j \<in> set xs'" by (auto simp: algebra_simps)
  qed
  from Suc.IH[OF so this] x xs show ?case by simp
qed

lemma conjunto_tem_corrida:
  "sorted_wrt (<) xs \<Longrightarrow> k \<in> set xs \<Longrightarrow> k + 1 \<in> set xs \<Longrightarrow> k + 2 \<in> set xs
     \<Longrightarrow> k + 3 \<in> set xs \<Longrightarrow> tem_corrida xs"
proof (induction xs)
  case (Cons a xs)
  show ?case
  proof (cases "k = a")
    case True
    have "\<forall>j. 1 \<le> j \<and> j \<le> int 3 \<longrightarrow> a + j \<in> set xs"
    proof (intro allI impI)
      fix j :: int assume "1 \<le> j \<and> j \<le> int 3"
      then have "j = 1 \<or> j = 2 \<or> j = 3" by auto
      with Cons.prems True show "a + j \<in> set xs" by auto
    qed
    from ordenada_inicia[OF Cons.prems(1) this] show ?thesis by simp
  next
    case False
    with Cons.prems have kin: "k \<in> set xs" by simp
    with Cons.prems(1) have "a < k" by auto
    with Cons.prems have "k + 1 \<in> set xs" "k + 2 \<in> set xs" "k + 3 \<in> set xs" by auto
    with Cons.IH kin Cons.prems(1) show ?thesis by simp
  qed
qed simp

lemma corrida_distinta:
  assumes "distinct c"
  shows "tem_mais_de_3_consecutivos c = corrida_de_4 c"
proof -
  from assms have s: "sorted_wrt (<) (sort c)"
    by (simp add: strict_sorted_iff)
  show ?thesis
    unfolding tem_mais_de_3_consecutivos_corrida corrida_de_4_def
    using tem_corrida_conjunto[of "sort c"] conjunto_tem_corrida[OF s]
    by auto
qed

lemma ja_saiu_no_historico_iff:
  "ja_saiu_no_historico c df = (\<exists>r\<in>set df. set c = set (bolas r))"
  by (induction df) auto

section \<open>Returned combinations\<close>

lemma indice_frequencia:
  "map fst (calcular_frequencia_numeros df) = [NUM_MIN..NUM_MAX]"
  by (simp add: calcular_frequencia_numeros_def Let_def comp_def)

lemma indice_atraso:
  "calcular_atraso_numeros df = Some atraso \<Longrightarrow> map fst atraso = [NUM_MIN..NUM_MAX]"
  by (auto simp: calcular_atraso_numeros_def Let_def comp_def split: option.splits)

lemma permuta_id: "permuta (\<lambda>s. s)"
  by (simp add: permuta_def)

lemma mset_sort_values_desc:
  "permuta desempate \<Longrightarrow> mset (sort_values_desc desempate s) = mset s"
  by (simp add: sort_values_desc_def permuta_def)

lemma pool_no_indice:
  assumes "permuta desempate"
  shows "set (take n (map fst (sort_values_desc desempate s))) \<subseteq> set (map fst s)"
proof -
  have "set (take n (map fst (sort_values_desc desempate s)))
          \<subseteq> set (map fst (sort_values_desc desempate s))"
    by (rule set_take_subset)
  moreover have "set (sort_values_desc desempate s) = set s"
    using mset_sort_values_desc[OF assms, of s] by (rule mset_eq_setD)
  ultimately show ?thesis by simp
qed

lemma gerar_aposta_retorna:
  assumes "gerar_aposta desempate df freq atraso qtd p foco g = Some (Inr c)"
  obtains g1 comb g2 pa where
    "gerar_combinacao_proporcional qtd foco (take 30 (map fst (sort_values_desc desempate freq)))
       (take 30 (map fst (sort_values_desc desempate atraso))) g1 = Some (Inr (comb, g2))"
    "c = sort comb"
    "int_truediv (impares c) qtd = Inr pa"
    "janela_impares p pa"
    "\<not> ja_saiu_no_historico c df"
    "\<not> tem_mais_de_3_consecutivos c"
  using assms unfolding gerar_aposta_def Let_def
  by (rule gerar_aposta_laco_retorna)

lemma gerar_aposta_distinta:
  assumes "gerar_aposta desempate df freq atraso qtd p foco g = Some (Inr c)"
  shows "distinct c" and "sorted c" and "int (length c) \<le> qtd"
proof -
  from assms obtain g1 comb g2 where
    gc: "gerar_combinacao_proporcional qtd foco (take 30 (map fst (sort_values_desc desempate freq)))
       (take 30 (map fst (sort_values_desc desempate atraso))) g1 = Some (Inr (comb, g2))"
    and c: "c = sort comb"
    by (rule gerar_aposta_retorna)
  from gcp_resultado(1)[OF gc] c show "distinct c" by simp
  from c show "sorted c" by simp
  from gcp_resultado(3)[OF gc] c show "int (length c) \<le> qtd" by simp
qed

lemma exemplo_proporcao:
  "proporcao_impares_pares historico_exemplo = Inr (Fin 6004799503160661 (- 53))"
  by code_simp

lemma exemplo_atraso: "calcular_atraso_numeros historico_exemplo \<noteq> None"
  by (simp add: calcular_atraso_numeros_def historico_exemplo_def)

lemma exemplo_execucao:
  "gerar_aposta (\<lambda>s. s) historico_exemplo (calcular_frequencia_numeros historico_exemplo)
     (the (calcular_atraso_numeros historico_exemplo)) 6
     (Fin 6004799503160661 (- 53)) ''equilibrado'' (\<lambda>n. 7 * n)
   = Some (Inr [1, 13, 27, 30, 33, 42])"
  by code_simp

text \<open>
  C2. Whatever the draw history, the frequency and staleness tables indexed by numbers
  of \<open>1..60\<close> (the tables of every history are: \<open>indice_frequencia\<close>,
  \<open>indice_atraso\<close>), the order in which the sort leaves equal values, the count
  between 6 and 15, the focus, the odd ratio and the random draws, a combination
  returned by \<open>gerar_aposta\<close> has exactly the requested number of members, all
  different and all in \<open>1..60\<close>.
\<close>

theorem gerar_aposta_combinacao_valida:
  assumes "permuta desempate"
    and "set (map fst freq) \<subseteq> {1..60}" and "set (map fst atraso) \<subseteq> {1..60}"
    and "6 \<le> qtd_numeros" and "qtd_numeros \<le> 15"
    and "gerar_aposta desempate df freq atraso qtd_numeros prop_impares foco g
           = Some (Inr c)"
  shows "int (length c) = qtd_numeros \<and> distinct c \<and> set c \<subseteq> {1..60}"
proof -
  from assms(6) obtain g1 comb g2 where
    gc: "gerar_combinacao_proporcional qtd_numeros foco
           (take 30 (map fst (sort_values_desc desempate freq)))
           (take 30 (map fst (sort_values_desc desempate atraso))) g1 = Some (Inr (comb, g2))"
    and c: "c = sort comb"
    by (rule gerar_aposta_retorna)
  have f: "set (take 30 (map fst (sort_values_desc desempate freq))) \<subseteq> {1..60}"
    using pool_no_indice[OF assms(1), of 30 freq] assms(2) by blast
  have a: "set (take 30 (map fst (sort_values_desc desempate atraso))) \<subseteq> {1..60}"
    using pool_no_indice[OF assms(1), of 30 atraso] assms(3) by blast
  from assms(5) have "qtd_numeros \<le> 60" by simp
  from gcp_resultado(4)[OF gc this] c have "int (length c) = qtd_numeros" by simp
  moreover from gcp_resultado(1)[OF gc] c have "distinct c" by simp
  moreover from gcp_resultado(2)[OF gc] f a c have "set c \<subseteq> {1..60}"
    by (auto simp: NUM_MIN_def NUM_MAX_def)
  ultimately show ?thesis by simp
qed

theorem gerar_aposta_combinacao_valida_witness:
  "permuta (\<lambda>s. s)
   \<and> set (map fst (calcular_frequencia_numeros historico_exemplo)) \<subseteq> {1..60}
   \<and> set (map fst (the (calcular_atraso_numeros historico_exemplo))) \<subseteq> {1..60}
   \<and> gerar_aposta (\<lambda>s. s) historico_exemplo (calcular_frequencia_numeros historico_exemplo)
       (the (calcular_atraso_numeros historico_exemplo)) 6
       (Fin 6004799503160661 (- 53)) ''equilibrado'' (\<lambda>n. 7 * n)
     = Some (Inr [1, 13, 27, 30, 33, 42])
   \<and> int (length [1, 13, 27, 30, 33, 42 :: int]) = 6
   \<and> distinct [1, 13, 27, 30, 33, 42 :: int]
   \<and> set [1, 13, 27, 30, 33, 42 :: int] \<subseteq> {1..60}"
proof -
  have h1: "calcular_atraso_numeros historico_exemplo
              = Some (the (calcular_atraso_numeros historico_exemplo))"
    using exemplo_atraso by simp
  have f: "set (map fst (calcular_frequencia_numeros historico_exemplo)) \<subseteq> {1..60}"
    by (simp add: indice_frequencia NUM_MIN_def NUM_MAX_def)
  have a: "set (map fst (the (calcular_atraso_numeros historico_exemplo))) \<subseteq> {1..60}"
    by (simp add: indice_atraso[OF h1] NUM_MIN_def NUM_MAX_def)
  have h2: "(6 :: int) \<le> 6" and h3: "(6 :: int) \<le> 15" by simp_all
  from gerar_aposta_combinacao_valida[OF permuta_id f a h2 h3 exemplo_execucao]
    permuta_id f a exemplo_execucao
  show ?thesis by simp
qed

text \<open>
  C3. For a list without repetitions, \<open>tem_mais_de_3_consecutivos\<close> is true exactly
  when the list holds four consecutive integers; three consecutive integers alone are
  accepted; and no combination returned by \<open>gerar_aposta\<close> holds four consecutive
  integers.
\<close>

theorem tem_mais_de_3_consecutivos_correto:
  "(distinct c \<longrightarrow> tem_mais_de_3_consecutivos c = corrida_de_4 c)
   \<and> \<not> tem_mais_de_3_consecutivos [k, k + 1, k + 2]
   \<and> (gerar_aposta desempate df freq atraso qtd_numeros prop_impares foco g = Some (Inr r)
        \<longrightarrow> \<not> corrida_de_4 r)"
proof (intro conjI impI)
  assume "distinct c"
  then show "tem_mais_de_3_consecutivos c = corrida_de_4 c" by (rule corrida_distinta)
next
  have "distinct [k, k + 1, k + 2]" by simp
  from corrida_distinta[OF this] show "\<not> tem_mais_de_3_consecutivos [k, k + 1, k + 2]"
    by (auto simp: corrida_de_4_def)
next
  assume r: "gerar_aposta desempate df freq atraso qtd_numeros prop_impares foco g = Some (Inr r)"
  then have "\<not> tem_mais_de_3_consecutivos r" by (rule gerar_aposta_retorna)
  with corrida_distinta[OF gerar_aposta_distinta(1)[OF r]] show "\<not> corrida_de_4 r" by simp
qed

theorem tem_mais_de_3_consecutivos_correto_witness:
  "distinct [8, 5, 7, 6 :: int] \<and> tem_mais_de_3_consecutivos [8, 5, 7, 6]
   \<and> corrida_de_4 [8, 5, 7, 6] \<and> \<not> tem_mais_de_3_consecutivos [5, 6, 7]
   \<and> gerar_aposta (\<lambda>s. s) historico_exemplo (calcular_frequencia_numeros historico_exemplo)
       (the (calcular_atraso_numeros historico_exemplo)) 6
       (Fin 6004799503160661 (- 53)) ''equilibrado'' (\<lambda>n. 7 * n)
     = Some (Inr [1, 13, 27, 30, 33, 42])
   \<and> \<not> corrida_de_4 [1, 13, 27, 30, 33, 42]"
proof -
  have d: "distinct [8, 5, 7, 6 :: int]" by simp
  have c: "corrida_de_4 [8, 5, 7, 6]" by (simp add: corrida_de_4_def)
  from tem_mais_de_3_consecutivos_correto[of "[8, 5, 7, 6]" 5 "\<lambda>s. s" historico_exemplo
      "calcular_frequencia_numeros historico_exemplo"
      "the (calcular_atraso_numeros historico_exemplo)" 6 "Fin 6004799503160661 (- 53)"
      "''equilibrado''" "\<lambda>n. 7 * n" "[1, 13, 27, 30, 33, 42]"]
    d c exemplo_execucao
  show ?thesis by simp
qed

text \<open>
  C5. \<open>ja_saiu_no_historico\<close> is true exactly when the set of the combination is the
  set of the drawn numbers of some row of the history, and the set of a combination
  returned by \<open>gerar_aposta\<close> (for a count of 6 as for any other) is the set of no row.
\<close>

theorem ja_saiu_no_historico_correto:
  "ja_saiu_no_historico c df = (\<exists>r\<in>set df. set c = set (bolas r))
   \<and> (gerar_aposta desempate df freq atraso qtd_numeros prop_impares foco g = Some (Inr c')
        \<longrightarrow> \<not> (\<exists>r\<in>set df. set c' = set (bolas r)))"
proof (intro conjI impI)
  show "ja_saiu_no_historico c df = (\<exists>r\<in>set df. set c = set (bolas r))"
    by (rule ja_saiu_no_historico_iff)
next
  assume "gerar_aposta desempate df freq atraso qtd_numeros prop_impares foco g = Some (Inr c')"
  then have "\<not> ja_saiu_no_historico c' df" by (rule gerar_aposta_retorna)
  then show "\<not> (\<exists>r\<in>set df. set c' = set (bolas r))"
    by (simp add: ja_saiu_no_historico_iff)
qed

theorem ja_saiu_no_historico_correto_witness:
  "ja_saiu_no_historico [52, 41, 33, 30, 5, 4] historico_exemplo
   \<and> gerar_aposta (\<lambda>s. s) historico_exemplo (calcular_frequencia_numeros historico_exemplo)
       (the (calcular_atraso_numeros historico_exemplo)) 6
       (Fin 6004799503160661 (- 53)) ''equilibrado'' (\<lambda>n. 7 * n)
     = Some (Inr [1, 13, 27, 30, 33, 42])
   \<and> \<not> ja_saiu_no_historico [1, 13, 27, 30, 33, 42] historico_exemplo"
proof -
  have a: "ja_saiu_no_historico [52, 41, 33, 30, 5, 4] historico_exemplo"
    by code_simp
  from ja_saiu_no_historico_correto[of "[1, 13, 27, 30, 33, 42]" historico_exemplo
      "\<lambda>s. s"
      "calcular_frequencia_numeros historico_exemplo"
      "the (calcular_atraso_numeros historico_exemplo)" 6 "Fin 6004799503160661 (- 53)"
      "''equilibrado''" "\<lambda>n. 7 * n" "[1, 13, 27, 30, 33, 42]"]
    a exemplo_execucao
  show ?thesis by simp
qed

section \<open>The staleness table\<close>

lemma marca_bolas_eq: "marca_bolas c ns m n = (if n \<in> set ns then Some c else m n)"
  by (induction ns arbitrary: m) auto

lemma marca_linhas_fora:
  "\<forall>r\<in>set df. n \<notin> set (bolas r) \<Longrightarrow> marca_linhas df m n = m n"
  by (induction df arbitrary: m) (auto simp: marca_bolas_eq)

lemma marca_linhas_ultima:
  "sorted (map concurso df) \<Longrightarrow> \<exists>r\<in>set df. n \<in> set (bolas r) \<Longrightarrow>
     marca_linhas df m n
       = Some (Max (set (map concurso (filter (\<lambda>r. n \<in> set (bolas r)) df))))"
proof (induction df arbitrary: m)
  case Nil
  then show ?case by simp
next
  case (Cons r rs)
  let ?S = "set (map concurso (filter (\<lambda>r. n \<in> set (bolas r)) rs))"
  show ?case
  proof (cases "\<exists>r'\<in>set rs. n \<in> set (bolas r')")
    case True
    from Cons.prems(1) have so: "sorted (map concurso rs)" by simp
    from Cons.IH[OF so True]
    have ih: "marca_linhas rs (marca_bolas (concurso r) (bolas r) m) n = Some (Max ?S)" .
    from True have ne: "?S \<noteq> {}" by (auto simp: filter_empty_conv)
    have "\<forall>c\<in>?S. concurso r \<le> c" using Cons.prems(1) by auto
    with ne have "concurso r \<le> Max ?S" by (meson Max_in List.finite_set)
    then have "Max (insert (concurso r) ?S) = Max ?S"
      using ne by (simp add: max_def)
    with ih show ?thesis by simp
  next
    case False
    with Cons.prems(2) have nr: "n \<in> set (bolas r)" by auto
    from False have "filter (\<lambda>r. n \<in> set (bolas r)) rs = []"
      by (auto simp: filter_empty_conv)
    moreover from False have "marca_linhas rs (marca_bolas (concurso r) (bolas r) m) n
        = marca_bolas (concurso r) (bolas r) m n"
      by (intro marca_linhas_fora) auto
    ultimately show ?thesis using nr by (simp add: marca_bolas_eq)
  qed
qed

lemma maximo_Max: "xs \<noteq> [] \<Longrightarrow> maximo xs = Some (Max (set xs))"
proof (induction xs)
  case (Cons x xs)
  show ?case
  proof (cases "xs = []")
    case True
    then show ?thesis by simp
  next
    case False
    with Cons.IH show ?thesis by simp
  qed
qed simp

lemma maximo_None: "maximo xs = None \<longleftrightarrow> xs = []"
  by (cases xs) (auto split: option.splits)

lemma tabela_busca:
  "n \<in> set xs \<Longrightarrow> map_of (map (\<lambda>k. (k, f k)) xs) n = Some (f n)"
  by (induction xs) auto

lemma atraso_busca:
  assumes "calcular_atraso_numeros df = Some atraso" and "1 \<le> n" and "n \<le> 60"
  shows "df \<noteq> []"
    and "map_of atraso n =
      Some (let u = Max (set (map concurso df));
                m = marca_linhas df (map_of (map (\<lambda>n. (n, - 1)) [NUM_MIN..NUM_MAX])) n
            in if the m = - 1 then u else u - the m)"
proof -
  from assms(1) show ne: "df \<noteq> []"
    by (auto simp: calcular_atraso_numeros_def)
  then have mx: "maximo (map concurso df) = Some (Max (set (map concurso df)))"
    by (intro maximo_Max) simp
  from assms(2,3) have n: "n \<in> set [NUM_MIN..NUM_MAX]"
    by (simp add: NUM_MIN_def NUM_MAX_def)
  define F where "F = (\<lambda>k. let u = Max (set (map concurso df));
                m = marca_linhas df (map_of (map (\<lambda>n. (n, - 1)) [NUM_MIN..NUM_MAX])) k
            in if the m = - 1 then u else u - the m)"
  from assms(1) mx have "atraso = map (\<lambda>k. (k, F k)) [NUM_MIN..NUM_MAX]"
    by (simp add: calcular_atraso_numeros_def Let_def F_def)
  then have "map_of atraso n = Some (F n)"
    using tabela_busca[OF n, of F] by simp
  then show "map_of atraso n =
      Some (let u = Max (set (map concurso df));
                m = marca_linhas df (map_of (map (\<lambda>n. (n, - 1)) [NUM_MIN..NUM_MAX])) n
            in if the m = - 1 then u else u - the m)"
    by (simp add: F_def)
qed

text \<open>
  C8. In the staleness table of a non-empty history, a number of \<open>1..60\<close> that no draw
  holds has the largest contest number of the history; and when the rows come in
  ascending contest order with positive contest numbers, as the data model has them, a
  number that was drawn has the largest contest number minus the largest contest
  number among the rows that hold it.
\<close>

theorem calcular_atraso_numeros_correto:
  assumes "calcular_atraso_numeros df = Some atraso" and "1 \<le> n" and "n \<le> 60"
  shows "((\<forall>r\<in>set df. n \<notin> set (bolas r)) \<longrightarrow>
            map_of atraso n = Some (Max (set (map concurso df))))
       \<and> (sorted (map concurso df) \<and> (\<forall>r\<in>set df. 0 < concurso r)
            \<and> (\<exists>r\<in>set df. n \<in> set (bolas r)) \<longrightarrow>
            map_of atraso n =
              Some (Max (set (map concurso df))
                    - Max (set (map concurso (filter (\<lambda>r. n \<in> set (bolas r)) df)))))"
proof (intro conjI impI)
  assume fora: "\<forall>r\<in>set df. n \<notin> set (bolas r)"
  from assms(2,3) have "n \<in> set [NUM_MIN..NUM_MAX]"
    by (simp add: NUM_MIN_def NUM_MAX_def)
  from tabela_busca[OF this, of "\<lambda>n. - 1"] marca_linhas_fora[OF fora]
  have "marca_linhas df (map_of (map (\<lambda>n. (n, - 1)) [NUM_MIN..NUM_MAX])) n = Some (- 1)"
    by simp
  with atraso_busca(2)[OF assms]
  show "map_of atraso n = Some (Max (set (map concurso df)))" by simp
next
  assume h: "sorted (map concurso df) \<and> (\<forall>r\<in>set df. 0 < concurso r)
               \<and> (\<exists>r\<in>set df. n \<in> set (bolas r))"
  let ?S = "set (map concurso (filter (\<lambda>r. n \<in> set (bolas r)) df))"
  from h have m: "marca_linhas df (map_of (map (\<lambda>n. (n, - 1)) [NUM_MIN..NUM_MAX])) n
                    = Some (Max ?S)"
    by (intro marca_linhas_ultima) auto
  from h have "?S \<noteq> {}" by (auto simp: filter_empty_conv)
  then have "Max ?S \<in> ?S" by (intro Max_in) auto
  with h have "0 < Max ?S" by auto
  with atraso_busca(2)[OF assms] m
  show "map_of atraso n = Some (Max (set (map concurso df)) - Max ?S)" by simp
qed

theorem calcular_atraso_numeros_correto_witness:
  "calcular_atraso_numeros historico_exemplo \<noteq> None
   \<and> map_of (the (calcular_atraso_numeros historico_exemplo)) 1 = Some 3
   \<and> map_of (the (calcular_atraso_numeros historico_exemplo)) 4 = Some 2
   \<and> map_of (the (calcular_atraso_numeros historico_exemplo)) 30 = Some 0"
proof -
  have h1: "calcular_atraso_numeros historico_exemplo
              = Some (the (calcular_atraso_numeros historico_exemplo))"
    using exemplo_atraso by simp
  from calcular_atraso_numeros_correto[OF h1, of 1]
       calcular_atraso_numeros_correto[OF h1, of 4]
       calcular_atraso_numeros_correto[OF h1, of 30] exemplo_atraso
  show ?thesis by (simp add: historico_exemplo_def)
qed

section \<open>The odd-ratio window\<close>

lemma literais:
  "lit_0_8 = Fin 7205759403792794 (- 53)"
  "lit_1_2 = Fin 5404319552844595 (- 52)"
  "lit_0_5 = Fin 4503599627370496 (- 53)"
  by code_simp+

lemma int_truediv_Fin:
  assumes "int_truediv a b = Inr f"
  shows "\<exists>m e. f = Fin m e"
proof (cases "arredonda_frac a b")
  case (Fin m e)
  with assms have "f = Fin m e" by (simp add: int_truediv_def split: if_splits)
  then show ?thesis by blast
qed (use assms in \<open>simp_all add: int_truediv_def split: if_splits\<close>)

lemma janela_zero:
  assumes "eh_zero p" and "janela_impares p (Fin m e)"
  shows "m = 0"
proof -
  from assms(1) obtain e0 where p: "p = Fin 0 e0" by (cases p) auto
  have z8: "fmul p lit_0_8 = Fin 0 0" and z12: "fmul p lit_1_2 = Fin 0 0"
    by (simp_all add: p literais fmul_def arredonda_def)
  from assms(2) have "0 \<le> m * 2 ^ nat (e - min 0 e)" and "m * 2 ^ nat (e - min e 0) \<le> 0"
    by (simp_all add: janela_impares_def z8 z12)
  then have "0 \<le> m" and "m \<le> 0"
    by (simp_all add: zero_le_mult_iff mult_le_0_iff)
  then show ?thesis by simp
qed

lemma fracao_positiva_tabela:
  "list_all (\<lambda>n. list_all (\<lambda>k.
       case int_truediv k n of Inr (Fin m e) \<Rightarrow> m \<noteq> 0 | _ \<Rightarrow> False) [1..n]) [6..15]"
  by code_simp

lemma fracao_positiva:
  assumes "6 \<le> n" and "n \<le> 15" and "1 \<le> k" and "k \<le> n"
    and "int_truediv k n = Inr (Fin m e)"
  shows "m \<noteq> 0"
proof -
  from assms(1,2) have "n \<in> set [6..15]" by (simp only: set_upto atLeastAtMost_iff)
  with fracao_positiva_tabela
  have "list_all (\<lambda>k. case int_truediv k n of Inr (Fin m e) \<Rightarrow> m \<noteq> 0 | _ \<Rightarrow> False) [1..n]"
    unfolding list_all_iff by blast
  moreover from assms(3,4) have "k \<in> set [1..n]" by (simp only: set_upto atLeastAtMost_iff)
  ultimately have "case int_truediv k n of Inr (Fin m e) \<Rightarrow> m \<noteq> 0 | _ \<Rightarrow> False"
    unfolding list_all_iff by blast
  with assms(5) show ?thesis by simp
qed

lemma impares_zero: "impares c = 0 \<longleftrightarrow> (\<forall>x\<in>set c. even x)"
  by (auto simp: impares_def filter_empty_conv even_iff_mod_2_eq_zero)

lemma impares_limites: "0 \<le> impares c" "impares c \<le> int (length c)"
  by (simp_all add: impares_def)

lemma exemplo_pares_proporcao: "proporcao_impares_pares historico_pares = Inr (Fin 0 0)"
  by code_simp

lemma exemplo_pares_atraso: "calcular_atraso_numeros historico_pares \<noteq> None"
  by (simp add: calcular_atraso_numeros_def historico_pares_def)

lemma exemplo_pares_execucao:
  "gerar_aposta (\<lambda>s. s) historico_pares (calcular_frequencia_numeros historico_pares)
     (the (calcular_atraso_numeros historico_pares)) 6 (Fin 0 0) ''equilibrado''
     (\<lambda>n. 13 * n + 9)
   = Some (Inr [10, 14, 16, 20, 26, 30])"
  by code_simp

text \<open>
  C4. A combination returned by \<open>gerar_aposta\<close> passed the odd-ratio window: its
  fraction of odd numbers \<open>impares / qtd_numeros\<close> lies between \<open>prop_impares * 0.8\<close>
  and \<open>prop_impares * 1.2\<close>, both ends included, the three numbers being the doubles
  that the source computes and compares. When \<open>prop_impares\<close> is zero both ends are
  zero, and for a count from 6 to 15 only a combination of even numbers is returned.
\<close>

theorem gerar_aposta_janela_impares:
  assumes "gerar_aposta desempate df freq atraso qtd_numeros prop_impares foco g = Some (Inr c)"
  shows "(\<exists>f. int_truediv (impares c) qtd_numeros = Inr f
             \<and> fle (fmul prop_impares lit_0_8) f \<and> fle f (fmul prop_impares lit_1_2))
       \<and> (eh_zero prop_impares \<and> 6 \<le> qtd_numeros \<and> qtd_numeros \<le> 15
            \<longrightarrow> fmul prop_impares lit_0_8 = Fin 0 0 \<and> fmul prop_impares lit_1_2 = Fin 0 0
                \<and> (\<forall>x\<in>set c. even x))"
proof (intro conjI impI)
  from assms obtain pa where td: "int_truediv (impares c) qtd_numeros = Inr pa"
    and ja: "janela_impares prop_impares pa"
    by (rule gerar_aposta_retorna)
  then show "\<exists>f. int_truediv (impares c) qtd_numeros = Inr f
             \<and> fle (fmul prop_impares lit_0_8) f \<and> fle f (fmul prop_impares lit_1_2)"
    by (auto simp: janela_impares_def)
  assume z: "eh_zero prop_impares \<and> 6 \<le> qtd_numeros \<and> qtd_numeros \<le> 15"
  then obtain e0 where p: "prop_impares = Fin 0 e0" by (cases prop_impares) auto
  show "fmul prop_impares lit_0_8 = Fin 0 0" and "fmul prop_impares lit_1_2 = Fin 0 0"
    by (simp_all add: p literais fmul_def arredonda_def)
  from int_truediv_Fin[OF td] obtain m e where pa: "pa = Fin m e" by blast
  from z ja pa have m: "m = 0" using janela_zero by blast
  have "impares c = 0"
  proof (rule ccontr)
    assume "impares c \<noteq> 0"
    with impares_limites[of c] gerar_aposta_distinta(3)[OF assms]
    have "1 \<le> impares c" and "impares c \<le> qtd_numeros" by linarith+
    from fracao_positiva[OF _ _ this td[unfolded pa]] z m show False by simp
  qed
  then show "\<forall>x\<in>set c. even x" by (simp add: impares_zero)
qed

theorem gerar_aposta_janela_impares_witness:
  "gerar_aposta (\<lambda>s. s) historico_exemplo (calcular_frequencia_numeros historico_exemplo)
       (the (calcular_atraso_numeros historico_exemplo)) 6
       (Fin 6004799503160661 (- 53)) ''equilibrado'' (\<lambda>n. 7 * n)
     = Some (Inr [1, 13, 27, 30, 33, 42])
   \<and> impares [1, 13, 27, 30, 33, 42] = 4
   \<and> int_truediv 4 6 = Inr (Fin 6004799503160661 (- 53))
   \<and> fmul (Fin 6004799503160661 (- 53)) lit_0_8 = Fin 4803839602528529 (- 53)
   \<and> fmul (Fin 6004799503160661 (- 53)) lit_1_2 = Fin 7205759403792793 (- 53)
   \<and> fle (Fin 4803839602528529 (- 53)) (Fin 6004799503160661 (- 53))
   \<and> fle (Fin 6004799503160661 (- 53)) (Fin 7205759403792793 (- 53))
   \<and> gerar_aposta (\<lambda>s. s) historico_pares (calcular_frequencia_numeros historico_pares)
       (the (calcular_atraso_numeros historico_pares)) 6 (Fin 0 0) ''equilibrado''
       (\<lambda>n. 13 * n + 9)
     = Some (Inr [10, 14, 16, 20, 26, 30])
   \<and> eh_zero (Fin 0 0)
   \<and> even (10 :: int) \<and> even (14 :: int) \<and> even (16 :: int) \<and> even (20 :: int)
   \<and> even (26 :: int) \<and> even (30 :: int)"
proof -
  have a: "impares [1, 13, 27, 30, 33, 42] = 4" by code_simp
  have b: "int_truediv 4 6 = Inr (Fin 6004799503160661 (- 53))" by code_simp
  have c: "fmul (Fin 6004799503160661 (- 53)) lit_0_8 = Fin 4803839602528529 (- 53)"
    by code_simp
  have d: "fmul (Fin 6004799503160661 (- 53)) lit_1_2 = Fin 7205759403792793 (- 53)"
    by code_simp
  from gerar_aposta_janela_impares[OF exemplo_execucao]
       gerar_aposta_janela_impares[OF exemplo_pares_execucao]
       exemplo_execucao exemplo_pares_execucao a b c d
  show ?thesis by simp
qed

section \<open>The retry loop has no bound\<close>

lemma impares_mset:
  "impares c = int (size (filter_mset (\<lambda>x. x mod 2 \<noteq> 0) (mset c)))"
  by (simp add: impares_def flip: mset_filter)

lemma impares_sort: "impares (sort c) = impares c"
  by (simp add: impares_mset)

lemma cotas_6_equilibrado: "cotas 6 ''equilibrado'' = Inr (3, 3)"
  by code_simp

lemma gcp_tres_impares:
  assumes "\<forall>x\<in>set tf. x mod 2 \<noteq> 0" and "\<forall>x\<in>set ta. x mod 2 = 0"
    and "3 \<le> length tf" and "3 \<le> length ta" and "distinct tf" and "distinct ta"
  shows "\<exists>comb g'. gerar_combinacao_proporcional 6 ''equilibrado'' tf ta g
                      = Some (Inr (comb, g'))
                    \<and> impares comb = 3"
proof -
  obtain ef g1 where s1: "sorteia tf 3 g = (ef, g1)" by (cases "sorteia tf 3 g") auto
  obtain ea g2 where s2: "sorteia ta 3 g1 = (ea, g2)" by (cases "sorteia ta 3 g1") auto
  from sorteia_eq[OF s1 assms(3)] assms(5)
  have ef: "length ef = 3" "set ef \<subseteq> set tf" "distinct ef" by auto
  from sorteia_eq[OF s2 assms(4)] assms(6)
  have ea: "length ea = 3" "set ea \<subseteq> set ta" "distinct ea" by auto
  have e1: "escolhe tf 3 g = Inr (ef, g1)"
    using assms(3) s1 by (simp add: escolhe_def random_sample_def)
  have e2: "escolhe ta 3 g1 = Inr (ea, g2)"
    using assms(4) s2 by (simp add: escolhe_def random_sample_def)
  have oi: "\<forall>x\<in>set ef. x mod 2 \<noteq> 0" and ep: "\<forall>x\<in>set ea. x mod 2 = 0"
    using ef(2) ea(2) assms(1,2) by auto
  then have "set ef \<inter> set ea = {}" by auto
  with ef(3) ea(3) have d: "distinct (ef @ ea)" by simp
  let ?c0 = "conjunto (ef @ ea)"
  from d have rd: "remdups (ef @ ea) = ef @ ea" by (rule distinct_remdups_id)
  have m0: "mset ?c0 = mset (ef @ ea)" unfolding conjunto_def rd by simp
  then have "length ?c0 = length (ef @ ea)" by (rule mset_eq_length)
  with ef(1) ea(1) have l0: "length ?c0 = 6" by simp
  have pr: "preencher ?c0 6 g2 = Some (Inr (?c0, g2))"
    by (rule preencher_para) (simp add: l0)
  have ct: "corta ?c0 6 g2 = Inr (?c0, g2)" by (simp add: corta_def l0)
  obtain c g' where sh: "random_shuffle ?c0 g2 = (c, g')"
    by (cases "random_shuffle ?c0 g2") auto
  have "mset c = mset ?c0" using mset_random_shuffle[of ?c0 g2] sh by simp
  with m0 have mc: "mset c = mset ef + mset ea" by simp
  have "filter (\<lambda>x. x mod 2 \<noteq> 0) ef = ef" using oi by (simp add: filter_id_conv)
  moreover have "filter (\<lambda>x. x mod 2 \<noteq> 0) ea = []" using ep by (simp add: filter_empty_conv)
  ultimately have "impares (ef @ ea) = 3" using ef(1) by (simp add: impares_def)
  moreover have "impares c = impares (ef @ ea)" using mc by (simp add: impares_mset)
  ultimately have "impares c = 3" by simp
  moreover have "gerar_combinacao_proporcional 6 ''equilibrado'' tf ta g = Some (Inr (c, g'))"
    by (simp add: gerar_combinacao_proporcional_def cotas_6_equilibrado e1 e2 pr ct sh)
  ultimately show ?thesis by blast
qed

lemma meio: "int_truediv 3 6 = Inr (Fin 4503599627370496 (- 53))"
  by code_simp

lemma laco_nunca_retorna:
  assumes "\<forall>x\<in>set tf. x mod 2 \<noteq> 0" and "\<forall>x\<in>set ta. x mod 2 = 0"
    and "3 \<le> length tf" and "3 \<le> length ta" and "distinct tf" and "distinct ta"
    and "\<not> janela_impares p (Fin 4503599627370496 (- 53))"
  shows "gerar_aposta_laco df 6 p ''equilibrado'' tf ta g = None"
proof (rule ccontr)
  assume "gerar_aposta_laco df 6 p ''equilibrado'' tf ta g \<noteq> None"
  then obtain y where y: "gerar_aposta_laco df 6 p ''equilibrado'' tf ta g = Some y" by auto
  let ?P = "\<lambda>(df' :: dataframe) (qtd' :: int) (p' :: pyfloat) (foco' :: string)
                (tf' :: int list) (ta' :: int list) (g' :: rng) (y' :: erro + int list).
              \<not> (qtd' = 6 \<and> p' = p \<and> foco' = ''equilibrado'' \<and> tf' = tf \<and> ta' = ta)"
  have "?P df 6 p ''equilibrado'' tf ta g y"
  proof (rule gerar_aposta_laco.raw_induct[where P = ?P, OF _ y])
    fix laco :: "dataframe \<Rightarrow> int \<Rightarrow> pyfloat \<Rightarrow> string \<Rightarrow> int list \<Rightarrow> int list \<Rightarrow> rng
                   \<Rightarrow> (erro + int list) option"
    fix df' qtd' p' foco' tf' ta' g0 y'
    assume IH: "\<And>df qtd p foco tf ta g y.
                  laco df qtd p foco tf ta g = Some y \<Longrightarrow> ?P df qtd p foco tf ta g y"
    assume corpo: "(case gerar_combinacao_proporcional qtd' foco' tf' ta' g0 of
        None \<Rightarrow> None
      | Some (Inl e) \<Rightarrow> Some (Inl e)
      | Some (Inr (comb, g')) \<Rightarrow>
          (let combinacao = sort comb;
               impares = int (length (filter (\<lambda>x. x mod 2 \<noteq> 0) combinacao))
           in case int_truediv impares qtd' of
                Inl e \<Rightarrow> Some (Inl e)
              | Inr prop_aposta_impares \<Rightarrow>
                  if \<not> janela_impares p' prop_aposta_impares
                  then laco df' qtd' p' foco' tf' ta' g'
                  else if ja_saiu_no_historico combinacao df'
                  then laco df' qtd' p' foco' tf' ta' g'
                  else if tem_mais_de_3_consecutivos combinacao
                  then laco df' qtd' p' foco' tf' ta' g'
                  else Some (Inr combinacao))) = Some y'"
    show "?P df' qtd' p' foco' tf' ta' g0 y'"
    proof
      assume eq: "qtd' = 6 \<and> p' = p \<and> foco' = ''equilibrado'' \<and> tf' = tf \<and> ta' = ta"
      from gcp_tres_impares[OF assms(1-6), of g0] obtain comb g1 where
        gc: "gerar_combinacao_proporcional 6 ''equilibrado'' tf ta g0 = Some (Inr (comb, g1))"
        and im: "impares comb = 3" by blast
      from im have "int (length (filter (\<lambda>x. x mod 2 \<noteq> 0) (sort comb))) = 3"
        using impares_sort[of comb] by (simp add: impares_def)
      with corpo eq gc assms(7) have "laco df' 6 p ''equilibrado'' tf ta g1 = Some y'"
        by (simp add: Let_def meio)
      from IH[OF this] show False by simp
    qed
  qed
  then show False by simp
qed

lemma topo_ordenado:
  assumes "sorted (map (\<lambda>p. - snd p) L)"
    and "length (filter (\<lambda>p. v \<le> snd p) L) = k"
  shows "\<forall>p\<in>set (take k L). (v :: int) \<le> snd p"
proof (rule ccontr)
  assume "\<not> (\<forall>p\<in>set (take k L). v \<le> snd p)"
  then obtain p where p: "p \<in> set (take k L)" and pv: "snd p < v" by auto
  from p obtain i where i: "i < length (take k L)" and pi: "take k L ! i = p"
    by (auto simp: in_set_conv_nth)
  then have ik: "i < k" and il: "i < length L" and li: "L ! i = p" by auto
  have "filter (\<lambda>p. v \<le> snd p) (drop i L) = []"
  proof -
    have "\<forall>q\<in>set (drop i L). \<not> v \<le> snd q"
    proof
      fix q assume "q \<in> set (drop i L)"
      then obtain k where k: "k < length (drop i L)" "drop i L ! k = q"
        by (auto simp: in_set_conv_nth)
      define j where "j = i + k"
      from k il have j: "i \<le> j" "j < length L" "L ! j = q"
        by (auto simp: j_def)
      with assms(1) have "map (\<lambda>p. - snd p) L ! i \<le> map (\<lambda>p. - snd p) L ! j"
        by (intro sorted_nth_mono) auto
      with j il li have "snd q \<le> snd p" by simp
      with pv show "\<not> v \<le> snd q" by simp
    qed
    then show ?thesis by (simp add: filter_empty_conv)
  qed
  moreover have "filter (\<lambda>p. v \<le> snd p) L
      = filter (\<lambda>p. v \<le> snd p) (take i L) @ filter (\<lambda>p. v \<le> snd p) (drop i L)"
    by (metis append_take_drop_id filter_append)
  ultimately have "filter (\<lambda>p. v \<le> snd p) L = filter (\<lambda>p. v \<le> snd p) (take i L)"
    by simp
  moreover have "length (filter (\<lambda>p. v \<le> snd p) (take i L)) \<le> length (take i L)"
    by (rule length_filter_le)
  ultimately have "length (filter (\<lambda>p. v \<le> snd p) L) \<le> length (take i L)"
    by simp
  with il ik assms(2) show False by simp
qed

lemma pool_topo:
  assumes "permuta desempate"
    and "length (filter (\<lambda>p. v \<le> snd p) s) = 30"
    and "\<forall>p\<in>set s. v \<le> snd p \<longrightarrow> P (fst p)"
    and "distinct (map fst s)"
  shows "\<forall>x\<in>set (take 30 (map fst (sort_values_desc desempate s))). P x"
    and "distinct (take 30 (map fst (sort_values_desc desempate s)))"
    and "length (take 30 (map fst (sort_values_desc desempate s))) = 30"
proof -
  let ?L = "sort_values_desc desempate s"
  have m: "mset ?L = mset s" using assms(1) by (rule mset_sort_values_desc)
  then have st: "set ?L = set s" by (rule mset_eq_setD)
  have so: "sorted (map (\<lambda>p. - snd p) ?L)" by (simp add: sort_values_desc_def)
  have "mset (filter (\<lambda>p. v \<le> snd p) ?L) = mset (filter (\<lambda>p. v \<le> snd p) s)"
    by (simp add: m)
  then have "length (filter (\<lambda>p. v \<le> snd p) ?L) = length (filter (\<lambda>p. v \<le> snd p) s)"
    by (rule mset_eq_length)
  with assms(2) have c: "length (filter (\<lambda>p. v \<le> snd p) ?L) = 30" by simp
  from topo_ordenado[OF so c] have t: "\<forall>p\<in>set (take 30 ?L). v \<le> snd p" .
  show "\<forall>x\<in>set (take 30 (map fst ?L)). P x"
  proof
    fix x assume "x \<in> set (take 30 (map fst ?L))"
    then obtain p where p: "p \<in> set (take 30 ?L)" and x: "x = fst p"
      by (auto simp: take_map)
    from p have "p \<in> set s" using st by (auto dest: in_set_takeD)
    with t p assms(3) x show "P x" by auto
  qed
  have "mset (map fst ?L) = mset (map fst s)" by (simp add: m)
  from mset_eq_imp_distinct_iff[OF this] assms(4) have "distinct (map fst ?L)" by simp
  then show "distinct (take 30 (map fst ?L))" by (rule distinct_take)
  have "length (filter (\<lambda>p. v \<le> snd p) ?L) \<le> length ?L" by (rule length_filter_le)
  with c show "length (take 30 (map fst ?L)) = 30" by simp
qed

lemma exemplo_impares_tabelas:
  "length (filter (\<lambda>p. 1 \<le> snd p) (calcular_frequencia_numeros historico_impares)) = 30"
  "list_all (\<lambda>p. 1 \<le> snd p \<longrightarrow> fst p mod 2 \<noteq> 0)
     (calcular_frequencia_numeros historico_impares)"
  "length (filter (\<lambda>p. 5 \<le> snd p) (the (calcular_atraso_numeros historico_impares))) = 30"
  "list_all (\<lambda>p. 5 \<le> snd p \<longrightarrow> fst p mod 2 = 0)
     (the (calcular_atraso_numeros historico_impares))"
  by code_simp+

lemma exemplo_impares_atraso: "calcular_atraso_numeros historico_impares \<noteq> None"
  by (simp add: calcular_atraso_numeros_def historico_impares_def)

lemma exemplo_impares_pools:
  assumes "permuta desempate"
  shows "\<forall>x\<in>set (take 30 (map fst (sort_values_desc desempate
             (calcular_frequencia_numeros historico_impares)))). x mod 2 \<noteq> 0"
    and "distinct (take 30 (map fst (sort_values_desc desempate
             (calcular_frequencia_numeros historico_impares))))"
    and "length (take 30 (map fst (sort_values_desc desempate
             (calcular_frequencia_numeros historico_impares)))) = 30"
    and "\<forall>x\<in>set (take 30 (map fst (sort_values_desc desempate
             (the (calcular_atraso_numeros historico_impares))))). x mod 2 = 0"
    and "distinct (take 30 (map fst (sort_values_desc desempate
             (the (calcular_atraso_numeros historico_impares)))))"
    and "length (take 30 (map fst (sort_values_desc desempate
             (the (calcular_atraso_numeros historico_impares))))) = 30"
proof -
  have df: "distinct (map fst (calcular_frequencia_numeros historico_impares))"
    by (simp add: indice_frequencia)
  have "calcular_atraso_numeros historico_impares
          = Some (the (calcular_atraso_numeros historico_impares))"
    using exemplo_impares_atraso by simp
  from indice_atraso[OF this]
  have da: "distinct (map fst (the (calcular_atraso_numeros historico_impares)))" by simp
  have pf: "\<forall>p\<in>set (calcular_frequencia_numeros historico_impares).
              1 \<le> snd p \<longrightarrow> fst p mod 2 \<noteq> 0"
    using exemplo_impares_tabelas(2) by (simp add: list_all_iff)
  have pa: "\<forall>p\<in>set (the (calcular_atraso_numeros historico_impares)).
              5 \<le> snd p \<longrightarrow> fst p mod 2 = 0"
    using exemplo_impares_tabelas(4) by (simp add: list_all_iff)
  note f = pool_topo[OF assms exemplo_impares_tabelas(1) pf df]
  note a = pool_topo[OF assms exemplo_impares_tabelas(3) pa da]
  show "\<forall>x\<in>set (take 30 (map fst (sort_values_desc desempate
             (calcular_frequencia_numeros historico_impares)))). x mod 2 \<noteq> 0"
    and "distinct (take 30 (map fst (sort_values_desc desempate
             (calcular_frequencia_numeros historico_impares))))"
    and "length (take 30 (map fst (sort_values_desc desempate
             (calcular_frequencia_numeros historico_impares)))) = 30"
    and "\<forall>x\<in>set (take 30 (map fst (sort_values_desc desempate
             (the (calcular_atraso_numeros historico_impares))))). x mod 2 = 0"
    and "distinct (take 30 (map fst (sort_values_desc desempate
             (the (calcular_atraso_numeros historico_impares)))))"
    and "length (take 30 (map fst (sort_values_desc desempate
             (the (calcular_atraso_numeros historico_impares))))) = 30"
    by (rule f a)+
qed

lemma exemplo_impares_proporcao:
  "proporcao_impares_pares historico_impares = Inr (Fin 4503599627370496 (- 52))"
  by code_simp

lemma exemplo_impares_janela:
  "\<not> janela_impares (Fin 4503599627370496 (- 52)) (Fin 4503599627370496 (- 53))"
  by code_simp

lemma exemplo_impares_nunca:
  assumes "permuta desempate"
  shows "gerar_aposta desempate historico_impares
     (calcular_frequencia_numeros historico_impares)
     (the (calcular_atraso_numeros historico_impares)) 6
     (Fin 4503599627370496 (- 52)) ''equilibrado'' g = None"
  unfolding gerar_aposta_def Let_def
  using exemplo_impares_pools[OF assms]
  by (intro laco_nunca_retorna exemplo_impares_janela) simp_all

lemma gerar_aposta_passo:
  assumes "gerar_combinacao_proporcional qtd foco
             (take 30 (map fst (sort_values_desc desempate freq)))
             (take 30 (map fst (sort_values_desc desempate atraso))) g
           = Some (Inr (comb, g1))"
    and "int_truediv (impares (sort comb)) qtd = Inr f"
  shows "gerar_aposta desempate df freq atraso qtd p foco g =
           (if janela_impares p f \<and> \<not> ja_saiu_no_historico (sort comb) df
               \<and> \<not> tem_mais_de_3_consecutivos (sort comb)
            then Some (Inr (sort comb))
            else gerar_aposta desempate df freq atraso qtd p foco g1)"
  unfolding gerar_aposta_def Let_def
  using assms
  by (subst gerar_aposta_laco.simps) (simp add: Let_def impares_def)

lemma resultado_com_estado:
  "map_option (map_sum id fst) x = Some (Inr a) \<Longrightarrow> x = Some (Inr (a, snd (projr (the x))))"
  by (cases x) (auto simp: map_sum_def split: sum.splits)

lemma exemplo_pares_tentativa:
  "map_option (map_sum id fst)
     (gerar_combinacao_proporcional 6 ''equilibrado''
        (take 30 (map fst (sort_values_desc (\<lambda>s. s)
           (calcular_frequencia_numeros historico_pares))))
        (take 30 (map fst (sort_values_desc (\<lambda>s. s)
           (the (calcular_atraso_numeros historico_pares)))))
        (\<lambda>n. 13 * n + 9))
   = Some (Inr [27, 25, 24, 7, 3, 38])"
  "int_truediv (impares (sort [27, 25, 24, 7, 3, 38])) 6
     = Inr (Fin 6004799503160661 (- 53))"
  "\<not> janela_impares (Fin 0 0) (Fin 6004799503160661 (- 53))"
  by code_simp+

text \<open>
  C1 (as the code has it). \<open>gerar_aposta\<close> has no attempt cap and no outcome for
  exhaustion. A combination it returns passed the three filters. Each attempt either
  passes them and is returned, or is rejected, and then the loop starts the next attempt
  from the state in which the random generator was left, whatever the number of attempts
  before. So when every attempt is rejected it does not return: for the history of five
  draws that hold the thirty odd numbers, whose odd ratio is 1, a count of 6 and the
  focus \<open>equilibrado\<close>, every attempt has three odd and three even numbers, misses the
  window and is retried, whatever the random draws and the order of equal values.
\<close>

theorem gerar_aposta_sem_limite:
  "(gerar_aposta desempate df freq atraso qtd_numeros prop_impares foco g = Some (Inr c) \<longrightarrow>
      (\<exists>f. int_truediv (impares c) qtd_numeros = Inr f \<and> janela_impares prop_impares f)
      \<and> \<not> ja_saiu_no_historico c df \<and> \<not> tem_mais_de_3_consecutivos c)
   \<and> (gerar_combinacao_proporcional qtd_numeros foco
         (take 30 (map fst (sort_values_desc desempate freq)))
         (take 30 (map fst (sort_values_desc desempate atraso))) g
         = Some (Inr (comb, g1))
       \<and> int_truediv (impares (sort comb)) qtd_numeros = Inr f1 \<longrightarrow>
       gerar_aposta desempate df freq atraso qtd_numeros prop_impares foco g =
         (if janela_impares prop_impares f1 \<and> \<not> ja_saiu_no_historico (sort comb) df
             \<and> \<not> tem_mais_de_3_consecutivos (sort comb)
          then Some (Inr (sort comb))
          else gerar_aposta desempate df freq atraso qtd_numeros prop_impares foco g1))
   \<and> proporcao_impares_pares historico_impares = Inr (Fin 4503599627370496 (- 52))
   \<and> (permuta desempate' \<longrightarrow>
       gerar_aposta desempate' historico_impares
         (calcular_frequencia_numeros historico_impares)
         (the (calcular_atraso_numeros historico_impares)) 6
         (Fin 4503599627370496 (- 52)) ''equilibrado'' g' = None)"
proof (intro conjI impI)
  assume r: "gerar_aposta desempate df freq atraso qtd_numeros prop_impares foco g
               = Some (Inr c)"
  then show "\<exists>f. int_truediv (impares c) qtd_numeros = Inr f \<and> janela_impares prop_impares f"
    by (rule gerar_aposta_retorna) blast
  from r show "\<not> ja_saiu_no_historico c df" by (rule gerar_aposta_retorna)
  from r show "\<not> tem_mais_de_3_consecutivos c" by (rule gerar_aposta_retorna)
next
  assume "gerar_combinacao_proporcional qtd_numeros foco
         (take 30 (map fst (sort_values_desc desempate freq)))
         (take 30 (map fst (sort_values_desc desempate atraso))) g
         = Some (Inr (comb, g1))
       \<and> int_truediv (impares (sort comb)) qtd_numeros = Inr f1"
  then show "gerar_aposta desempate df freq atraso qtd_numeros prop_impares foco g =
         (if janela_impares prop_impares f1 \<and> \<not> ja_saiu_no_historico (sort comb) df
             \<and> \<not> tem_mais_de_3_consecutivos (sort comb)
          then Some (Inr (sort comb))
          else gerar_aposta desempate df freq atraso qtd_numeros prop_impares foco g1)"
    by (intro gerar_aposta_passo) auto
next
  show "proporcao_impares_pares historico_impares = Inr (Fin 4503599627370496 (- 52))"
    by (rule exemplo_impares_proporcao)
next
  assume "permuta desempate'"
  then show "gerar_aposta desempate' historico_impares
         (calcular_frequencia_numeros historico_impares)
         (the (calcular_atraso_numeros historico_impares)) 6
         (Fin 4503599627370496 (- 52)) ''equilibrado'' g' = None"
    by (rule exemplo_impares_nunca)
qed

theorem gerar_aposta_sem_limite_witness:
  "gerar_aposta (\<lambda>s. s) historico_pares (calcular_frequencia_numeros historico_pares)
       (the (calcular_atraso_numeros historico_pares)) 6 (Fin 0 0) ''equilibrado''
       (\<lambda>n. 13 * n + 9)
     = Some (Inr [10, 14, 16, 20, 26, 30])
   \<and> int_truediv (impares [10, 14, 16, 20, 26, 30]) 6 = Inr (Fin 0 0)
   \<and> janela_impares (Fin 0 0) (Fin 0 0)
   \<and> \<not> ja_saiu_no_historico [10, 14, 16, 20, 26, 30] historico_pares
   \<and> \<not> tem_mais_de_3_consecutivos [10, 14, 16, 20, 26, 30]
   \<and> map_option (map_sum id fst)
       (gerar_combinacao_proporcional 6 ''equilibrado''
          (take 30 (map fst (sort_values_desc (\<lambda>s. s)
             (calcular_frequencia_numeros historico_pares))))
          (take 30 (map fst (sort_values_desc (\<lambda>s. s)
             (the (calcular_atraso_numeros historico_pares)))))
          (\<lambda>n. 13 * n + 9))
     = Some (Inr [27, 25, 24, 7, 3, 38])
   \<and> gerar_combinacao_proporcional 6 ''equilibrado''
       (take 30 (map fst (sort_values_desc (\<lambda>s. s)
          (calcular_frequencia_numeros historico_pares))))
       (take 30 (map fst (sort_values_desc (\<lambda>s. s)
          (the (calcular_atraso_numeros historico_pares)))))
       (\<lambda>n. 13 * n + 9)
     = Some (Inr ([27, 25, 24, 7, 3, 38],
         snd (projr (the
           (gerar_combinacao_proporcional 6 ''equilibrado''
              (take 30 (map fst (sort_values_desc (\<lambda>s. s)
                 (calcular_frequencia_numeros historico_pares))))
              (take 30 (map fst (sort_values_desc (\<lambda>s. s)
                 (the (calcular_atraso_numeros historico_pares)))))
              (\<lambda>n. 13 * n + 9))))))
   \<and> int_truediv (impares (sort [27, 25, 24, 7, 3, 38])) 6
       = Inr (Fin 6004799503160661 (- 53))
   \<and> \<not> janela_impares (Fin 0 0) (Fin 6004799503160661 (- 53))
   \<and> gerar_aposta (\<lambda>s. s) historico_pares (calcular_frequencia_numeros historico_pares)
       (the (calcular_atraso_numeros historico_pares)) 6 (Fin 0 0) ''equilibrado''
       (\<lambda>n. 13 * n + 9)
     = gerar_aposta (\<lambda>s. s) historico_pares (calcular_frequencia_numeros historico_pares)
         (the (calcular_atraso_numeros historico_pares)) 6 (Fin 0 0) ''equilibrado''
         (snd (projr (the
           (gerar_combinacao_proporcional 6 ''equilibrado''
              (take 30 (map fst (sort_values_desc (\<lambda>s. s)
                 (calcular_frequencia_numeros historico_pares))))
              (take 30 (map fst (sort_values_desc (\<lambda>s. s)
                 (the (calcular_atraso_numeros historico_pares)))))
              (\<lambda>n. 13 * n + 9)))))
   \<and> permuta (\<lambda>s. s)
   \<and> gerar_aposta (\<lambda>s. s) historico_impares (calcular_frequencia_numeros historico_impares)
       (the (calcular_atraso_numeros historico_impares)) 6
       (Fin 4503599627370496 (- 52)) ''equilibrado'' (\<lambda>n. 7 * n) = None"
proof -
  let ?tf = "take 30 (map fst (sort_values_desc (\<lambda>s. s)
               (calcular_frequencia_numeros historico_pares)))"
  let ?ta = "take 30 (map fst (sort_values_desc (\<lambda>s. s)
               (the (calcular_atraso_numeros historico_pares))))"
  let ?g0 = "\<lambda>n :: nat. 13 * n + 9"
  let ?x = "gerar_combinacao_proporcional 6 ''equilibrado'' ?tf ?ta ?g0"
  have a: "int_truediv (impares [10, 14, 16, 20, 26, 30]) 6 = Inr (Fin 0 0)" by code_simp
  have t: "?x = Some (Inr ([27, 25, 24, 7, 3, 38], snd (projr (the ?x))))"
    using exemplo_pares_tentativa(1) by (rule resultado_com_estado)
  note th = gerar_aposta_sem_limite[where desempate = "\<lambda>s. s" and df = historico_pares
      and freq = "calcular_frequencia_numeros historico_pares"
      and atraso = "the (calcular_atraso_numeros historico_pares)"
      and qtd_numeros = 6 and prop_impares = "Fin 0 0" and foco = "''equilibrado''"
      and g = ?g0 and c = "[10, 14, 16, 20, 26, 30]"
      and comb = "[27, 25, 24, 7, 3, 38]" and ?g1.0 = "snd (projr (the ?x))"
      and ?f1.0 = "Fin 6004799503160661 (- 53)"
      and desempate' = "\<lambda>s. s" and g' = "\<lambda>n. 7 * n"]
  from th t exemplo_pares_tentativa exemplo_pares_execucao a permuta_id
  show ?thesis by simp
qed

theorem gerar_aposta_sem_limite_counterexample:
  "gerar_aposta (\<lambda>s. s) historico_impares (calcular_frequencia_numeros historico_impares)
     (the (calcular_atraso_numeros historico_impares)) 6
     (Fin 4503599627370496 (- 52)) ''equilibrado'' (\<lambda>n. 7 * n) = None"
  by (rule exemplo_impares_nunca[OF permuta_id])

section \<open>The configuration is not checked\<close>

lemma cotas_outro_foco:
  "foco \<noteq> ''frequentes'' \<Longrightarrow> foco \<noteq> ''atrasados'' \<Longrightarrow>
     cotas qtd foco = cotas qtd ''equilibrado''"
  by (auto simp: cotas_def split: sum.splits)

lemma gcp_outro_foco:
  assumes "foco \<noteq> ''frequentes''" and "foco \<noteq> ''atrasados''"
  shows "gerar_combinacao_proporcional qtd foco tf ta g
           = gerar_combinacao_proporcional qtd ''equilibrado'' tf ta g"
  unfolding gerar_combinacao_proporcional_def cotas_outro_foco[OF assms] ..

lemma laco_mesmo_gerador:
  assumes "gerar_aposta_laco df qtd p foco tf ta g = Some y"
    and "\<forall>g. gerar_combinacao_proporcional qtd foco tf ta g
              = gerar_combinacao_proporcional qtd foco2 tf ta g"
  shows "gerar_aposta_laco df qtd p foco2 tf ta g = Some y"
proof -
  let ?P = "\<lambda>(df :: dataframe) (qtd :: int) (p :: pyfloat) (foco :: string)
                (tf :: int list) (ta :: int list) (g :: rng) (y :: erro + int list).
      (\<forall>g. gerar_combinacao_proporcional qtd foco tf ta g
              = gerar_combinacao_proporcional qtd foco2 tf ta g)
      \<longrightarrow> gerar_aposta_laco df qtd p foco2 tf ta g = Some y"
  have "?P df qtd p foco tf ta g y"
  proof (rule gerar_aposta_laco.raw_induct[where P = ?P, OF _ assms(1)])
    fix laco :: "dataframe \<Rightarrow> int \<Rightarrow> pyfloat \<Rightarrow> string \<Rightarrow> int list \<Rightarrow> int list \<Rightarrow> rng
                   \<Rightarrow> (erro + int list) option"
    fix df' qtd' p' foco' tf' ta' g0 y'
    assume IH: "\<And>df qtd p foco tf ta g y.
                  laco df qtd p foco tf ta g = Some y \<Longrightarrow> ?P df qtd p foco tf ta g y"
    assume corpo: "(case gerar_combinacao_proporcional qtd' foco' tf' ta' g0 of
        None \<Rightarrow> None
      | Some (Inl e) \<Rightarrow> Some (Inl e)
      | Some (Inr (comb, g')) \<Rightarrow>
          (let combinacao = sort comb;
               impares = int (length (filter (\<lambda>x. x mod 2 \<noteq> 0) combinacao))
           in case int_truediv impares qtd' of
                Inl e \<Rightarrow> Some (Inl e)
              | Inr prop_aposta_impares \<Rightarrow>
                  if \<not> janela_impares p' prop_aposta_impares
                  then laco df' qtd' p' foco' tf' ta' g'
                  else if ja_saiu_no_historico combinacao df'
                  then laco df' qtd' p' foco' tf' ta' g'
                  else if tem_mais_de_3_consecutivos combinacao
                  then laco df' qtd' p' foco' tf' ta' g'
                  else Some (Inr combinacao))) = Some y'"
    show "?P df' qtd' p' foco' tf' ta' g0 y'"
    proof
      assume eq: "\<forall>g. gerar_combinacao_proporcional qtd' foco' tf' ta' g
                        = gerar_combinacao_proporcional qtd' foco2 tf' ta' g"
      then have e0: "gerar_combinacao_proporcional qtd' foco2 tf' ta' g0
                       = gerar_combinacao_proporcional qtd' foco' tf' ta' g0" by simp
      have rec: "\<And>g1. laco df' qtd' p' foco' tf' ta' g1 = Some y' \<Longrightarrow>
                       gerar_aposta_laco df' qtd' p' foco2 tf' ta' g1 = Some y'"
        using IH eq by blast
      show "gerar_aposta_laco df' qtd' p' foco2 tf' ta' g0 = Some y'"
        using corpo
        by (subst gerar_aposta_laco.simps, unfold e0)
           (auto simp: Let_def rec split: option.splits sum.splits prod.splits if_splits)
    qed
  qed
  with assms(2) show ?thesis by simp
qed

lemma gerar_aposta_outro_foco:
  assumes "foco \<noteq> ''frequentes''" and "foco \<noteq> ''atrasados''"
  shows "gerar_aposta desempate df freq atraso qtd p foco g
           = gerar_aposta desempate df freq atraso qtd p ''equilibrado'' g"
proof -
  let ?tf = "take 30 (map fst (sort_values_desc desempate freq))"
  let ?ta = "take 30 (map fst (sort_values_desc desempate atraso))"
  have a: "\<forall>g. gerar_combinacao_proporcional qtd foco ?tf ?ta g
                 = gerar_combinacao_proporcional qtd ''equilibrado'' ?tf ?ta g"
    using gcp_outro_foco[OF assms] by simp
  then have b: "\<forall>g. gerar_combinacao_proporcional qtd ''equilibrado'' ?tf ?ta g
                 = gerar_combinacao_proporcional qtd foco ?tf ?ta g" by simp
  have "gerar_aposta_laco df qtd p foco ?tf ?ta g
          = gerar_aposta_laco df qtd p ''equilibrado'' ?tf ?ta g"
  proof (cases "gerar_aposta_laco df qtd p foco ?tf ?ta g")
    case (Some y)
    from laco_mesmo_gerador[OF Some a] Some show ?thesis by simp
  next
    case None
    show ?thesis
    proof (cases "gerar_aposta_laco df qtd p ''equilibrado'' ?tf ?ta g")
      case (Some y)
      from laco_mesmo_gerador[OF Some b] None show ?thesis by simp
    next
      case None2: None
      with None show ?thesis by simp
    qed
  qed
  then show ?thesis by (simp add: gerar_aposta_def)
qed

lemma cotas_erro: "cotas qtd foco = Inl e \<Longrightarrow> e = ValueError \<or> e = OverflowError"
proof -
  have m: "\<And>x e. math_ceil x = Inl e \<Longrightarrow> e = ValueError \<or> e = OverflowError"
    by (case_tac x) auto
  have i: "\<And>n e. int_para_float n = Inl e \<Longrightarrow> e = OverflowError"
    by (auto simp: int_para_float_def split: pyfloat.splits)
  assume "cotas qtd foco = Inl e"
  then show ?thesis
    by (auto simp: cotas_def split: sum.splits if_splits dest: m i)
qed

lemma gcp_negativo:
  assumes "qtd < 0"
  shows "gerar_combinacao_proporcional qtd foco tf ta g = Some (Inl ValueError)
       \<or> gerar_combinacao_proporcional qtd foco tf ta g = Some (Inl OverflowError)"
proof (cases "cotas qtd foco")
  case (Inl e)
  with cotas_erro[OF Inl] show ?thesis
    by (auto simp: gerar_combinacao_proporcional_def)
next
  case (Inr q)
  obtain n_freq n_atra where q: "q = (n_freq, n_atra)" by (cases q) auto
  from cotas_soma[OF Inr[unfolded q]] assms have neg: "n_freq < 0 \<or> n_atra < 0" by linarith
  show ?thesis
  proof (cases "escolhe tf n_freq g")
    case (Inl e)
    with escolhe_erro[OF Inl] Inr q show ?thesis
      by (simp add: gerar_combinacao_proporcional_def)
  next
    case r1: (Inr r)
    obtain ef g1 where r: "r = (ef, g1)" by (cases r) auto
    from r1 have "\<not> n_freq < 0" using escolhe_negativo[of n_freq tf g] by auto
    with neg have "n_atra < 0" by simp
    from escolhe_negativo[OF this] Inr q r1 r show ?thesis
      by (simp add: gerar_combinacao_proporcional_def)
  qed
qed

lemma gerar_aposta_negativo:
  assumes "qtd < 0"
  shows "gerar_aposta desempate df freq atraso qtd p foco g = Some (Inl ValueError)
       \<or> gerar_aposta desempate df freq atraso qtd p foco g = Some (Inl OverflowError)"
proof -
  let ?tf = "take 30 (map fst (sort_values_desc desempate freq))"
  let ?ta = "take 30 (map fst (sort_values_desc desempate atraso))"
  have l: "\<And>e. gerar_combinacao_proporcional qtd foco ?tf ?ta g = Some (Inl e) \<Longrightarrow>
             gerar_aposta_laco df qtd p foco ?tf ?ta g = Some (Inl e)"
    by (subst gerar_aposta_laco.simps) simp
  from gcp_negativo[OF assms, of foco ?tf ?ta g] l show ?thesis
    unfolding gerar_aposta_def Let_def by blast
qed

lemma zero_float: "int_para_float 0 = Inr (Fin 0 0)"
  by code_simp

lemma cotas_zero: "cotas 0 foco = Inr (0, 0)"
  by (simp add: cotas_def zero_float literais fmul_def arredonda_def)

lemma gcp_zero: "gerar_combinacao_proporcional 0 foco tf ta g = Some (Inr ([], g))"
proof -
  have e: "\<And>pool g. escolhe pool 0 g = Inr ([], g)"
    by (simp add: escolhe_def random_sample_def)
  have p: "preencher [] 0 g = Some (Inr ([], g))" by (rule preencher_para) simp
  show ?thesis
    by (simp add: gerar_combinacao_proporcional_def cotas_zero e conjunto_def p corta_def
        random_shuffle_def)
qed

lemma gerar_aposta_zero:
  "gerar_aposta desempate df freq atraso 0 p foco g = Some (Inl ZeroDivisionError)"
  unfolding gerar_aposta_def Let_def
  by (subst gerar_aposta_laco.simps) (simp add: gcp_zero int_truediv_def)

lemma exemplo_config_invalida:
  "gerar_aposta (\<lambda>s. s) historico_exemplo (calcular_frequencia_numeros historico_exemplo)
     (the (calcular_atraso_numeros historico_exemplo)) 5
     (Fin 6004799503160661 (- 53)) ''xyz'' (\<lambda>n. 4 * n + 2)
   = Some (Inr [4, 20, 25, 29, 43])"
  by code_simp

lemma exemplo_negativo:
  "gerar_aposta (\<lambda>s. s) historico_exemplo (calcular_frequencia_numeros historico_exemplo)
     (the (calcular_atraso_numeros historico_exemplo)) (- 3)
     (Fin 6004799503160661 (- 53)) ''frequentes'' (\<lambda>n. n)
   = Some (Inl ValueError)"
  by code_simp

lemma desloca_limite:
  assumes "0 \<le> m"
  shows "0 \<le> desloca m s" and "desloca m s \<le> m + 1"
proof -
  have a: "0 \<le> m div 2 ^ s" using assms by (simp add: pos_imp_zdiv_nonneg_iff)
  have "m div 2 ^ s \<le> m div 1" using assms by (intro zdiv_mono2) simp_all
  then have b: "m div 2 ^ s \<le> m" by simp
  from a b assms show "0 \<le> desloca m s" and "desloca m s \<le> m + 1"
    by (auto simp: desloca_def Let_def)
qed

lemma arredonda_finito:
  assumes "0 \<le> m" and "m < 2 ^ 64" and "e \<le> 0"
  shows "\<exists>m' e'. arredonda m e = Fin m' e'"
proof (cases "m = 0")
  case True
  then show ?thesis by (simp add: arredonda_def)
next
  case False
  define ex where "ex = max (bitlen \<bar>m\<bar> - 1 + e) (- 1022)"
  define s where "s = ex - 52 - e"
  define m' where "m' = (if 0 < s then desloca m (nat s) else m)"
  define e' where "e' = (if 0 < s then e + s else e)"
  have bm: "bitlen \<bar>m\<bar> \<le> 64" using assms(1,2) by (simp add: bitlen_le_iff_power)
  have "0 \<le> m'" and "m' \<le> m + 1"
    using desloca_limite[OF assms(1), of "nat s"] assms(1) by (auto simp: m'_def)
  with assms(2) have "\<bar>m'\<bar> < 2 ^ 65" by simp
  then have bm': "bitlen \<bar>m'\<bar> \<le> 65" by (simp add: bitlen_le_iff_power)
  have "ex \<le> 63" using bm assms(3) by (simp add: ex_def)
  then have "e' \<le> 11" using assms(3) by (simp add: e'_def s_def)
  with bm' have "\<not> 1024 < bitlen \<bar>m'\<bar> + e'" by simp
  have "arredonda m e = (if 1024 < bitlen \<bar>m'\<bar> + e' then (if 0 < m then PInf else NInf)
                         else Fin m' e')"
    unfolding arredonda_def Let_def m'_def e'_def s_def ex_def
    by (simp only: False if_False)
  with \<open>\<not> 1024 < bitlen \<bar>m'\<bar> + e'\<close> have "arredonda m e = Fin m' e'" by simp
  then show ?thesis by blast
qed

lemma int_truediv_finito:
  assumes "0 \<le> k" and "k \<le> n" and "0 < n" and "n \<le> 60"
  shows "\<exists>f. int_truediv k n = Inr f"
proof -
  define kk where "kk = max 0 (55 + bitlen \<bar>n\<bar> - bitlen \<bar>k\<bar>)"
  define q where "q = (\<bar>k\<bar> * 2 ^ nat kk) div \<bar>n\<bar>"
  define r where "r = (\<bar>k\<bar> * 2 ^ nat kk) mod \<bar>n\<bar>"
  define m where "m = 2 * q + (if r = 0 then 0 else 1)"
  have "n < 2 ^ 6" using assms(4) by simp
  then have "bitlen \<bar>n\<bar> \<le> 6" using assms(3) by (simp add: bitlen_le_iff_power)
  moreover have "0 \<le> bitlen \<bar>k\<bar>" by (rule bitlen_nonneg)
  ultimately have k61: "kk \<le> 61" and k0: "0 \<le> kk" by (simp_all add: kk_def)
  have "k * 2 ^ nat kk \<le> n * 2 ^ nat kk" using assms(2) by (simp add: mult_right_mono)
  then have "(k * 2 ^ nat kk) div n \<le> (n * 2 ^ nat kk) div n" by (rule zdiv_mono1) fact
  also have "\<dots> = 2 ^ nat kk" using assms(3) by simp
  finally have q1: "q \<le> 2 ^ nat kk" using assms(1,3) by (simp add: q_def)
  have "nat kk \<le> 61" using k61 by simp
  then have "(2 :: int) ^ nat kk \<le> 2 ^ 61" by (intro power_increasing) simp_all
  with q1 have q2: "q \<le> 2 ^ 61" by simp
  have q0: "0 \<le> q" using assms(1,3) by (simp add: q_def pos_imp_zdiv_nonneg_iff)
  have m0: "0 \<le> m" and m1: "m < 2 ^ 64" using q0 q2 by (simp_all add: m_def)
  have e: "- kk - 1 \<le> 0" using k0 by simp
  from arredonda_finito[OF m0 m1 e] obtain m' e' where
    "arredonda m (- kk - 1) = Fin m' e'" by blast
  moreover have "arredonda_frac k n = arredonda m (- kk - 1)"
    using assms(1,3) by (simp add: arredonda_frac_def Let_def m_def q_def r_def kk_def)
  ultimately show ?thesis using assms(3) by (simp add: int_truediv_def)
qed


lemma cotas_positivas_tabela:
  "list_all (\<lambda>n. list_all (\<lambda>foco.
       case cotas n foco of Inr (a, b) \<Rightarrow> 0 \<le> a \<and> 0 \<le> b | Inl e \<Rightarrow> False)
       [''frequentes'', ''atrasados'', ''equilibrado'']) [1..60]"
  by code_simp

lemma cotas_positivas:
  assumes "0 < qtd" and "qtd \<le> 60"
  shows "\<exists>a b. cotas qtd foco = Inr (a, b) \<and> 0 \<le> a \<and> 0 \<le> b"
proof -
  define foco' where "foco' = (if foco = ''frequentes'' \<or> foco = ''atrasados'' then foco
                               else ''equilibrado'')"
  have eq: "cotas qtd foco = cotas qtd foco'"
    using cotas_outro_foco[of foco qtd] by (auto simp: foco'_def)
  have f: "foco' \<in> set [''frequentes'', ''atrasados'', ''equilibrado'']"
    by (simp add: foco'_def)
  from assms have "1 \<le> qtd \<and> qtd \<le> 60" by simp
  then have "qtd \<in> set [1..60]" by (simp only: set_upto atLeastAtMost_iff)
  with cotas_positivas_tabela
  have "list_all (\<lambda>foco.
       case cotas qtd foco of Inr (a, b) \<Rightarrow> 0 \<le> a \<and> 0 \<le> b | Inl e \<Rightarrow> False)
       [''frequentes'', ''atrasados'', ''equilibrado'']"
    unfolding list_all_iff by blast
  with f have "case cotas qtd foco' of Inr (a, b) \<Rightarrow> 0 \<le> a \<and> 0 \<le> b | Inl e \<Rightarrow> False"
    unfolding list_all_iff by blast
  then show ?thesis unfolding eq by (auto split: sum.splits)
qed

lemma gcp_sem_erro:
  assumes "0 < qtd" and "qtd \<le> 60"
  shows "gerar_combinacao_proporcional qtd foco tf ta g \<noteq> Some (Inl e)"
proof -
  from cotas_positivas[OF assms] obtain a b where
    co: "cotas qtd foco = Inr (a, b)" and a: "0 \<le> a" and b: "0 \<le> b" by blast
  obtain ef g1 where e1: "escolhe tf a g = Inr (ef, g1)"
    using escolhe_erro[of tf a g] a by (cases "escolhe tf a g") auto
  obtain ea g2 where e2: "escolhe ta b g1 = Inr (ea, g2)"
    using escolhe_erro[of ta b g1] b by (cases "escolhe ta b g1") auto
  from preencher_total[of "conjunto (ef @ ea)" qtd g2] obtain comb g3 where
    pr: "preencher (conjunto (ef @ ea)) qtd g2 = Some (Inr (comb, g3))" by blast
  obtain cl g4 where ct: "corta comb qtd g3 = Inr (cl, g4)"
    using corta_erro[of comb qtd g3] assms(1) by (cases "corta comb qtd g3") auto
  show ?thesis
    by (simp add: gerar_combinacao_proporcional_def co e1 e2 pr ct)
qed

lemma laco_sem_erro:
  assumes "gerar_aposta_laco df qtd p foco tf ta g = Some y"
  shows "0 < qtd \<and> qtd \<le> 60 \<longrightarrow> (\<exists>c. y = Inr c)"
proof -
  let ?P = "\<lambda>(df :: dataframe) (qtd :: int) (p :: pyfloat) (foco :: string)
                (tf :: int list) (ta :: int list) (g :: rng) (y :: erro + int list).
      0 < qtd \<and> qtd \<le> 60 \<longrightarrow> (\<exists>c. y = Inr c)"
  show ?thesis
  proof (rule gerar_aposta_laco.raw_induct[where P = ?P, OF _ assms])
    fix laco :: "dataframe \<Rightarrow> int \<Rightarrow> pyfloat \<Rightarrow> string \<Rightarrow> int list \<Rightarrow> int list \<Rightarrow> rng
                   \<Rightarrow> (erro + int list) option"
    fix df' qtd' p' foco' tf' ta' g0 y'
    assume IH: "\<And>df qtd p foco tf ta g y.
                  laco df qtd p foco tf ta g = Some y \<Longrightarrow> ?P df qtd p foco tf ta g y"
    assume corpo: "(case gerar_combinacao_proporcional qtd' foco' tf' ta' g0 of
        None \<Rightarrow> None
      | Some (Inl e) \<Rightarrow> Some (Inl e)
      | Some (Inr (comb, g')) \<Rightarrow>
          (let combinacao = sort comb;
               impares = int (length (filter (\<lambda>x. x mod 2 \<noteq> 0) combinacao))
           in case int_truediv impares qtd' of
                Inl e \<Rightarrow> Some (Inl e)
              | Inr prop_aposta_impares \<Rightarrow>
                  if \<not> janela_impares p' prop_aposta_impares
                  then laco df' qtd' p' foco' tf' ta' g'
                  else if ja_saiu_no_historico combinacao df'
                  then laco df' qtd' p' foco' tf' ta' g'
                  else if tem_mais_de_3_consecutivos combinacao
                  then laco df' qtd' p' foco' tf' ta' g'
                  else Some (Inr combinacao))) = Some y'"
    show "?P df' qtd' p' foco' tf' ta' g0 y'"
    proof
      assume q: "0 < qtd' \<and> qtd' \<le> 60"
      then have q1: "0 < qtd'" and q2: "qtd' \<le> 60" by simp_all
      from corpo gcp_sem_erro[OF q1 q2, of foco' tf' ta' g0] obtain comb g1 where
        gc: "gerar_combinacao_proporcional qtd' foco' tf' ta' g0 = Some (Inr (comb, g1))"
        by (auto split: option.splits sum.splits)
      have "impares (sort comb) \<le> int (length (sort comb))" by (rule impares_limites)
      also have "\<dots> \<le> qtd'" using gcp_resultado(3)[OF gc] by simp
      finally have "impares (sort comb) \<le> qtd'" .
      from int_truediv_finito[OF impares_limites(1) this q1 q2] obtain f where
        f: "int_truediv (impares (sort comb)) qtd' = Inr f" by blast
      have rec: "\<And>g. laco df' qtd' p' foco' tf' ta' g = Some y' \<Longrightarrow> \<exists>c. y' = Inr c"
        using IH q by blast
      from corpo show "\<exists>c. y' = Inr c"
        using f[unfolded impares_def]
        by (auto simp: gc Let_def dest: rec split: if_splits)
    qed
  qed
qed

lemma gerar_aposta_sem_erro:
  assumes "0 < qtd" and "qtd \<le> 60"
  shows "gerar_aposta desempate df freq atraso qtd p foco g \<noteq> Some (Inl e)"
  using laco_sem_erro[of df qtd p foco _ _ g "Inl e"] assms
  unfolding gerar_aposta_def Let_def by blast

lemma gerar_aposta_tamanho:
  assumes "gerar_aposta desempate df freq atraso qtd p foco g = Some (Inr c)"
    and "qtd \<le> 60"
  shows "int (length c) = qtd" and "distinct c"
proof -
  from assms(1) obtain g1 comb g2 where
    gc: "gerar_combinacao_proporcional qtd foco
           (take 30 (map fst (sort_values_desc desempate freq)))
           (take 30 (map fst (sort_values_desc desempate atraso))) g1 = Some (Inr (comb, g2))"
    and c: "c = sort comb"
    by (rule gerar_aposta_retorna)
  from gcp_resultado(4)[OF gc assms(2)] c show "int (length c) = qtd" by simp
  from gcp_resultado(1)[OF gc] c show "distinct c" by simp
qed

text \<open>
  C7 (as the code has it). \<open>gerar_aposta\<close> has no configuration error and turns no
  configuration away. A focus other than \<open>frequentes\<close> and \<open>atrasados\<close> is handled
  exactly as \<open>equilibrado\<close>. A count from 1 to 60, inside \<open>6..15\<close> or not, raises no
  error, and a combination returned for it has exactly that many numbers, all different.
  For a count of zero an empty combination is generated and the division by the count
  raises \<open>ZeroDivisionError\<close>. A negative count raises \<open>ValueError\<close> or
  \<open>OverflowError\<close>.
\<close>

theorem gerar_aposta_sem_validacao:
  "(foco \<noteq> ''frequentes'' \<and> foco \<noteq> ''atrasados'' \<longrightarrow>
      gerar_aposta desempate df freq atraso qtd_numeros prop_impares foco g
        = gerar_aposta desempate df freq atraso qtd_numeros prop_impares ''equilibrado'' g)
   \<and> (0 < qtd_numeros \<and> qtd_numeros \<le> 60 \<longrightarrow>
        gerar_aposta desempate df freq atraso qtd_numeros prop_impares foco g \<noteq> Some (Inl e))
   \<and> (0 < qtd_numeros \<and> qtd_numeros \<le> 60
        \<and> gerar_aposta desempate df freq atraso qtd_numeros prop_impares foco g = Some (Inr c)
        \<longrightarrow> int (length c) = qtd_numeros \<and> distinct c)
   \<and> gerar_combinacao_proporcional 0 foco top_freq top_atra g = Some (Inr ([], g))
   \<and> gerar_aposta desempate df freq atraso 0 prop_impares foco g = Some (Inl ZeroDivisionError)
   \<and> (qtd_numeros < 0 \<longrightarrow>
        gerar_aposta desempate df freq atraso qtd_numeros prop_impares foco g
          = Some (Inl ValueError)
        \<or> gerar_aposta desempate df freq atraso qtd_numeros prop_impares foco g
          = Some (Inl OverflowError))"
proof (intro conjI impI)
  assume "foco \<noteq> ''frequentes'' \<and> foco \<noteq> ''atrasados''"
  then show "gerar_aposta desempate df freq atraso qtd_numeros prop_impares foco g
        = gerar_aposta desempate df freq atraso qtd_numeros prop_impares ''equilibrado'' g"
    by (intro gerar_aposta_outro_foco) simp_all
next
  assume "0 < qtd_numeros \<and> qtd_numeros \<le> 60"
  then show "gerar_aposta desempate df freq atraso qtd_numeros prop_impares foco g
               \<noteq> Some (Inl e)"
    by (intro gerar_aposta_sem_erro) simp_all
next
  assume h: "0 < qtd_numeros \<and> qtd_numeros \<le> 60
        \<and> gerar_aposta desempate df freq atraso qtd_numeros prop_impares foco g = Some (Inr c)"
  then have r: "gerar_aposta desempate df freq atraso qtd_numeros prop_impares foco g
                  = Some (Inr c)"
    and q: "qtd_numeros \<le> 60" by simp_all
  from gerar_aposta_tamanho(1)[OF r q] show "int (length c) = qtd_numeros" .
  from gerar_aposta_tamanho(2)[OF r q] show "distinct c" .
next
  show "gerar_combinacao_proporcional 0 foco top_freq top_atra g = Some (Inr ([], g))"
    by (rule gcp_zero)
next
  show "gerar_aposta desempate df freq atraso 0 prop_impares foco g
          = Some (Inl ZeroDivisionError)"
    by (rule gerar_aposta_zero)
next
  assume "qtd_numeros < 0"
  then show "gerar_aposta desempate df freq atraso qtd_numeros prop_impares foco g
          = Some (Inl ValueError)
        \<or> gerar_aposta desempate df freq atraso qtd_numeros prop_impares foco g
          = Some (Inl OverflowError)"
    by (rule gerar_aposta_negativo)
qed

theorem gerar_aposta_sem_validacao_witness:
  "''xyz'' \<noteq> ''frequentes'' \<and> ''xyz'' \<noteq> ''atrasados''
   \<and> (0 :: int) < 5 \<and> (5 :: int) \<le> 60
   \<and> gerar_aposta (\<lambda>s. s) historico_exemplo (calcular_frequencia_numeros historico_exemplo)
       (the (calcular_atraso_numeros historico_exemplo)) 5
       (Fin 6004799503160661 (- 53)) ''xyz'' (\<lambda>n. 4 * n + 2)
     = Some (Inr [4, 20, 25, 29, 43])
   \<and> gerar_aposta (\<lambda>s. s) historico_exemplo (calcular_frequencia_numeros historico_exemplo)
       (the (calcular_atraso_numeros historico_exemplo)) 5
       (Fin 6004799503160661 (- 53)) ''equilibrado'' (\<lambda>n. 4 * n + 2)
     = Some (Inr [4, 20, 25, 29, 43])
   \<and> gerar_aposta (\<lambda>s. s) historico_exemplo (calcular_frequencia_numeros historico_exemplo)
       (the (calcular_atraso_numeros historico_exemplo)) 5
       (Fin 6004799503160661 (- 53)) ''xyz'' (\<lambda>n. 4 * n + 2)
     \<noteq> Some (Inl ValueError)
   \<and> int (length [4, 20, 25, 29, 43 :: int]) = 5
   \<and> distinct [4, 20, 25, 29, 43 :: int]
   \<and> (- 3 :: int) < 0
   \<and> gerar_aposta (\<lambda>s. s) historico_exemplo (calcular_frequencia_numeros historico_exemplo)
       (the (calcular_atraso_numeros historico_exemplo)) (- 3)
       (Fin 6004799503160661 (- 53)) ''frequentes'' (\<lambda>n. n)
     = Some (Inl ValueError)
   \<and> gerar_aposta (\<lambda>s. s) historico_exemplo (calcular_frequencia_numeros historico_exemplo)
       (the (calcular_atraso_numeros historico_exemplo)) 0
       (Fin 6004799503160661 (- 53)) ''frequentes'' (\<lambda>n. n)
     = Some (Inl ZeroDivisionError)"
proof -
  note a = gerar_aposta_sem_validacao[where foco = "''xyz''" and desempate = "\<lambda>s. s"
      and df = historico_exemplo and freq = "calcular_frequencia_numeros historico_exemplo"
      and atraso = "the (calcular_atraso_numeros historico_exemplo)" and qtd_numeros = 5
      and prop_impares = "Fin 6004799503160661 (- 53)" and g = "\<lambda>n. 4 * n + 2"
      and e = ValueError and c = "[4, 20, 25, 29, 43]"]
  note b = gerar_aposta_sem_validacao[where foco = "''frequentes''" and desempate = "\<lambda>s. s"
      and df = historico_exemplo and freq = "calcular_frequencia_numeros historico_exemplo"
      and atraso = "the (calcular_atraso_numeros historico_exemplo)" and qtd_numeros = "- 3"
      and prop_impares = "Fin 6004799503160661 (- 53)" and g = "\<lambda>n. n"]
  from a b exemplo_config_invalida exemplo_negativo
  show ?thesis by simp
qed

theorem gerar_aposta_sem_validacao_counterexample:
  "gerar_aposta (\<lambda>s. s) historico_exemplo (calcular_frequencia_numeros historico_exemplo)
     (the (calcular_atraso_numeros historico_exemplo)) 5
     (Fin 6004799503160661 (- 53)) ''xyz'' (\<lambda>n. 4 * n + 2)
   = Some (Inr [4, 20, 25, 29, 43])"
  by (rule exemplo_config_invalida)

end
